theory Spec2Isabelle
  imports Complex_Main "HOL-Library.Sublist" "HOL-Library.AList"
begin

section \<open>Storage of record\<close>

text \<open>
  The server of \<^verbatim>\<open>src/src/lib/utils.ts\<close> keeps three collections behind Prisma:
  problems (the reports), clusters and resolved comments (the feedback). Each collection
  is a list in insertion order. Timestamps are \<^verbatim>\<open>Date.getTime()\<close> values: integer
  milliseconds since the epoch. The float columns (\<^verbatim>\<open>sentiment_score\<close>,
  \<^verbatim>\<open>priority_score\<close>, \<^verbatim>\<open>avg_sentiment\<close>) are read as real numbers, so
  \<^verbatim>\<open>_avg\<close> is the exact arithmetic mean.
\<close>

type_synonym time = int

record problem =
  pid :: string
  user_id :: int
  title :: string
  description :: string
  category :: string
  location :: string
  image_url :: "string option"
  status :: string
  created_at :: time
  resolved_at :: "time option"
  sentiment_score :: real
  sentiment_label :: string
  priority_score :: real
  is_urgent :: bool
  cluster_id :: "int option"

record cluster =
  cl_id :: int
  cluster_name :: string
  area :: string
  problem_count :: int
  avg_sentiment :: real

record resolved_comment =
  rc_id :: string
  problem_id :: string
  citizen_id :: int
  rating :: string
  comment :: string
  time_taken :: int
  rc_created_at :: time

record db =
  clusters :: "cluster list"
  problems :: "problem list"
  comments :: "resolved_comment list"
  next_cluster_id :: int

definition empty_db :: db where
  "empty_db = \<lparr>clusters = [], problems = [], comments = [], next_cluster_id = 1\<rparr>"

text \<open>
  The Prisma schema is not among the sources. What it decides and the handlers rely on is
  a parameter of the model: the collation under which the \<^verbatim>\<open>contains\<close> filter compares
  characters (the identity for a case-sensitive engine, a case fold for a
  case-insensitive one), and whether \<^verbatim>\<open>ResolvedComment.problem_id\<close> is declared unique.
\<close>

record storage =
  collate :: "char \<Rightarrow> char"
  comment_per_problem_unique :: bool

text \<open>The decoded token that \<^verbatim>\<open>authenticate\<close> stores in \<^verbatim>\<open>req.user\<close>.\<close>

record user =
  uid :: int
  role :: string
  uname :: string

datatype error = Http nat string

text \<open>\<^verbatim>\<open>authorize(roles)\<close>: the request goes on only when the caller's role is listed.\<close>

definition authorize :: "string list \<Rightarrow> user \<Rightarrow> bool" where
  "authorize roles u = (role u \<in> set roles)"

section \<open>Aggregates of the storage engine\<close>

text \<open>\<^verbatim>\<open>aggregate({ _avg })\<close>: the mean of a column, \<^verbatim>\<open>null\<close> over no rows.\<close>

definition avg :: "real list \<Rightarrow> real option" where
  "avg xs = (if xs = [] then None else Some (sum_list xs / real (length xs)))"

text \<open>The JavaScript \<^verbatim>\<open>v || 0\<close> on a nullable number.\<close>

definition or0 :: "real option \<Rightarrow> real" where
  "or0 v = (case v of None \<Rightarrow> 0 | Some x \<Rightarrow> (if x = 0 then 0 else x))"

text \<open>The rows a \<^verbatim>\<open>where: { cluster_id }\<close> filter selects.\<close>

definition members :: "db \<Rightarrow> int \<Rightarrow> problem list" where
  "members s c = filter (\<lambda>p. cluster_id p = Some c) (problems s)"

section \<open>Cluster resolution and report submission\<close>

text \<open>
  \<^verbatim>\<open>cluster_name: { contains: suggestion }\<close>: the stored name holds the suggestion as a
  contiguous substring, characters compared under the collation.
\<close>

definition contains :: "storage \<Rightarrow> string \<Rightarrow> string \<Rightarrow> bool" where
  "contains cfg name s = sublist (map (collate cfg) s) (map (collate cfg) name)"

definition findFirst_cluster :: "storage \<Rightarrow> string \<Rightarrow> cluster list \<Rightarrow> cluster option" where
  "findFirst_cluster cfg s cs = find (\<lambda>c. contains cfg (cluster_name c) s) cs"

text \<open>
  Modelled from the spec: the defaults of a created cluster, which the missing schema
  declares. The spec gives a new cluster count 0 and mean sentiment 0; its id is the
  next value of the autoincrement counter.
\<close>

definition create_cluster :: "db \<Rightarrow> string \<Rightarrow> string \<Rightarrow> db \<times> cluster" where
  "create_cluster s nm ar =
     (let c = \<lparr>cl_id = next_cluster_id s, cluster_name = nm, area = ar,
                problem_count = 0, avg_sentiment = 0\<rparr>
      in (s\<lparr>clusters := clusters s @ [c], next_cluster_id := next_cluster_id s + 1\<rparr>, c))"

text \<open>
  The first step of the submission handler: \<^verbatim>\<open>findFirst\<close> by the suggestion, and
  \<^verbatim>\<open>create\<close> with the suggestion as name and the location as area when nothing matched.
\<close>

definition resolve_cluster :: "storage \<Rightarrow> db \<Rightarrow> string \<Rightarrow> string \<Rightarrow> db \<times> cluster" where
  "resolve_cluster cfg s sg loc =
     (case findFirst_cluster cfg sg (clusters s) of
        Some c \<Rightarrow> (s, c)
      | None \<Rightarrow> create_cluster s sg loc)"

text \<open>
  The block under \<^verbatim>\<open>// Update cluster stats\<close>, which the submission handler and the
  seed script both run: count and mean are recomputed from the problems and written to
  the cluster row.
\<close>

definition refresh_cluster_stats :: "db \<Rightarrow> int \<Rightarrow> db" where
  "refresh_cluster_stats s c =
     (let problemCount = int (length (members s c));
          avgSentiment = avg (map sentiment_score (members s c))
      in s\<lparr>clusters :=
            map (\<lambda>k. if cl_id k = c
                      then k\<lparr>problem_count := problemCount, avg_sentiment := or0 avgSentiment\<rparr>
                      else k)
              (clusters s)\<rparr>)"

text \<open>The seed script's sweep: every cluster of \<^verbatim>\<open>findMany()\<close> is refreshed in turn.\<close>

definition refresh_all :: "db \<Rightarrow> db" where
  "refresh_all s = fold (\<lambda>c t. refresh_cluster_stats t (cl_id c)) (clusters s) s"

record analysis =
  an_sentiment_label :: string
  an_sentiment_score :: real
  an_priority_score :: real
  an_is_urgent :: bool
  an_category :: string
  cluster_suggestion :: string

text \<open>The body of \<^verbatim>\<open>POST /api/problems\<close>; \<^verbatim>\<open>analysis\<close> may be missing from it.\<close>

record problem_body =
  b_title :: string
  b_description :: string
  b_category :: string
  b_location :: string
  b_image_url :: "string option"
  b_analysis :: "analysis option"

text \<open>
  Modelled from the spec: the defaults of a created problem, which the missing schema
  declares: status \<^verbatim>\<open>Pending\<close>, no resolution timestamp, creation timestamp now.
\<close>

definition new_problem :: "string \<Rightarrow> user \<Rightarrow> time \<Rightarrow> problem_body \<Rightarrow> analysis \<Rightarrow> int \<Rightarrow> problem" where
  "new_problem i u now body an c =
     \<lparr>pid = i, user_id = uid u, title = b_title body, description = b_description body,
      category = b_category body, location = b_location body, image_url = b_image_url body,
      status = ''Pending'', created_at = now, resolved_at = None,
      sentiment_score = an_sentiment_score an, sentiment_label = an_sentiment_label an,
      priority_score = an_priority_score an, is_urgent = an_is_urgent an,
      cluster_id = Some c\<rparr>"

text \<open>
  \<^verbatim>\<open>POST /api/problems\<close>. \<^verbatim>\<open>new_id\<close> is the value \<^verbatim>\<open>uuidv4()\<close> returns and \<^verbatim>\<open>now\<close> the
  clock of the insert. Reading a field of a missing \<^verbatim>\<open>analysis\<close> throws, and so does
  the insert of a problem whose id is taken (the id is the key \<^verbatim>\<open>findUnique\<close> looks up);
  both land in the handler's \<^verbatim>\<open>catch\<close>. A cluster created before the failing insert
  stays.
\<close>

definition post_problem ::
  "storage \<Rightarrow> db \<Rightarrow> user \<Rightarrow> time \<Rightarrow> string \<Rightarrow> problem_body \<Rightarrow> db \<times> (error + string \<times> analysis)" where
  "post_problem cfg s u now new_id body =
     (if \<not> authorize [''citizen_admin''] u then (s, Inl (Http 403 ''Forbidden''))
      else case b_analysis body of
        None \<Rightarrow> (s, Inl (Http 500 ''Failed to save problem''))
      | Some an \<Rightarrow>
          (let (s1, c) = resolve_cluster cfg s (cluster_suggestion an) (b_location body)
           in if \<exists>p \<in> set (problems s1). pid p = new_id
              then (s1, Inl (Http 500 ''Failed to save problem''))
              else (refresh_cluster_stats
                      (s1\<lparr>problems := problems s1 @ [new_problem new_id u now body an (cl_id c)]\<rparr>)
                      (cl_id c),
                    Inr (new_id, an))))"

section \<open>Status updates and feedback\<close>

text \<open>
  \<^verbatim>\<open>PATCH /api/problems/:id/status\<close>. \<^verbatim>\<open>prisma.problem.update\<close> throws when no row has
  the id. The status \<^verbatim>\<open>Resolved\<close> also stamps \<^verbatim>\<open>resolved_at\<close>; any other status
  writes the status alone.
\<close>

definition patch_status :: "db \<Rightarrow> user \<Rightarrow> time \<Rightarrow> string \<Rightarrow> string \<Rightarrow> db \<times> (error + unit)" where
  "patch_status s u now i st =
     (if \<not> authorize [''municipal_admin''] u then (s, Inl (Http 403 ''Forbidden''))
      else if \<not> (\<exists>p \<in> set (problems s). pid p = i)
      then (s, Inl (Http 500 ''Failed to update status''))
      else if st = ''Resolved''
      then (s\<lparr>problems :=
               map (\<lambda>p. if pid p = i then p\<lparr>status := st, resolved_at := Some now\<rparr> else p)
                 (problems s)\<rparr>, Inr ())
      else (s\<lparr>problems := map (\<lambda>p. if pid p = i then p\<lparr>status := st\<rparr> else p) (problems s)\<rparr>,
            Inr ()))"

text \<open>
  \<^verbatim>\<open>POST /api/problems/:id/comment\<close>. The guard reads \<^verbatim>\<open>resolved_at\<close>, not the status.
  \<^verbatim>\<open>Math.floor\<close> of the millisecond difference over 1000 is integer division, which
  rounds down in HOL as well. The insert throws on a taken comment id and, when the
  schema declares \<^verbatim>\<open>problem_id\<close> unique, on a problem that already has a comment.
\<close>

definition post_comment ::
  "storage \<Rightarrow> db \<Rightarrow> user \<Rightarrow> time \<Rightarrow> string \<Rightarrow> string \<Rightarrow> string \<Rightarrow> string \<Rightarrow> db \<times> (error + int)" where
  "post_comment cfg s u now commentId i rt cm =
     (if \<not> authorize [''citizen_admin''] u then (s, Inl (Http 403 ''Forbidden''))
      else case find (\<lambda>p. pid p = i) (problems s) of
        None \<Rightarrow> (s, Inl (Http 400 ''Problem not resolved''))
      | Some p \<Rightarrow>
          (case resolved_at p of
             None \<Rightarrow> (s, Inl (Http 400 ''Problem not resolved''))
           | Some r \<Rightarrow>
               (let timeTaken = (r - created_at p) div 1000
                in if (\<exists>c \<in> set (comments s). rc_id c = commentId) \<or>
                      (comment_per_problem_unique cfg \<and> (\<exists>c \<in> set (comments s). problem_id c = i))
                   then (s, Inl (Http 500 ''Failed to save comment''))
                   else (s\<lparr>comments := comments s @
                            [\<lparr>rc_id = commentId, problem_id = i, citizen_id = uid u, rating = rt,
                              comment = cm, time_taken = timeTaken, rc_created_at = now\<rparr>]\<rparr>,
                         Inr timeTaken))))"

text \<open>
  The requests that write, and a run of them; the seed's sweep is one of them. A request
  runs from start to finish on the store: the steps of two requests do not interleave.
\<close>

datatype request =
    PostProblem user time string problem_body
  | PatchStatus user time string string
  | PostComment user time string string string string
  | RefreshAll

fun handle :: "storage \<Rightarrow> db \<Rightarrow> request \<Rightarrow> db" where
  "handle cfg s (PostProblem u now new_id body) = fst (post_problem cfg s u now new_id body)"
| "handle cfg s (PatchStatus u now i st) = fst (patch_status s u now i st)"
| "handle cfg s (PostComment u now commentId i rt cm) = fst (post_comment cfg s u now commentId i rt cm)"
| "handle cfg s RefreshAll = refresh_all s"

fun run :: "storage \<Rightarrow> db \<Rightarrow> request list \<Rightarrow> db" where
  "run cfg s [] = s"
| "run cfg s (r # rs) = run cfg (handle cfg s r) rs"

section \<open>Dates\<close>

text \<open>
  A \<^verbatim>\<open>Date\<close> is its time value, milliseconds since the epoch in UTC. \<^verbatim>\<open>getDate\<close> and
  \<^verbatim>\<open>setDate\<close> work on local time, \<^verbatim>\<open>toISOString\<close> on UTC. The time zone of the server
  process is a parameter: \<open>utc_offset\<close> is the offset of local time from UTC at a UTC
  instant, \<open>local_offset\<close> the offset by which a local time value is read back
  (ECMAScript's \<^verbatim>\<open>LocalTZA(t, true)\<close> and \<^verbatim>\<open>LocalTZA(t, false)\<close>), both in milliseconds.
\<close>

record zone =
  utc_offset :: "time \<Rightarrow> int"
  local_offset :: "time \<Rightarrow> int"

definition msPerDay :: int where
  "msPerDay = 86400000"

definition LocalTime :: "zone \<Rightarrow> time \<Rightarrow> time" where
  "LocalTime z t = t + utc_offset z t"

definition UTC :: "zone \<Rightarrow> time \<Rightarrow> time" where
  "UTC z t = t - local_offset z t"

text \<open>
  \<^verbatim>\<open>d.setDate(d.getDate() - n)\<close>: the local time keeps its time of day and moves \<open>n\<close>
  days back (\<^verbatim>\<open>MakeDay\<close> carries a day of the month below 1 into the months before), and
  the result is read back as a UTC instant.
\<close>

definition setDate_back :: "zone \<Rightarrow> time \<Rightarrow> int \<Rightarrow> time" where
  "setDate_back z t n = UTC z (LocalTime z t - n * msPerDay)"

text \<open>
  \<^verbatim>\<open>toISOString().split('T')[0]\<close>: the UTC calendar date. The string \<^verbatim>\<open>YYYY-MM-DD\<close> is
  represented by the number of the UTC day since the epoch; for the years 0000 to 9999
  the two are in bijection and the order of the strings is the order of the day numbers,
  so \<^verbatim>\<open>localeCompare\<close> on dates is \<open>\<le>\<close> on day numbers.
\<close>

definition iso_date :: "time \<Rightarrow> int" where
  "iso_date t = t div msPerDay"

section \<open>Dashboard statistics\<close>

text \<open>
  A JavaScript object used as a dictionary is an association list in insertion order:
  \<open>map_of\<close> reads a key, \<open>AList.update\<close> assigns one (a new key goes to the end) and
  \<open>AList.map_entry\<close> changes the value of a key that is present. The keys here are dates
  and category names; \<^verbatim>\<open>Object.entries\<close> lists such keys in insertion order.
\<close>

record trend =
  date :: int
  active :: nat
  resolved :: nat

record stats =
  totalProblems :: nat
  activeProblems :: nat
  resolvedProblems :: nat
  avgSentiment :: real
  urgentAlerts :: nat
  activeClusters :: nat
  trends :: "trend list"
  resolutionTimes :: "(string \<times> real) list"

text \<open>
  The \<^verbatim>\<open>findMany\<close> of the trend computation: problems created at or after
  \<^verbatim>\<open>thirtyDaysAgo\<close>, of the caller alone unless the caller is a municipal admin.
\<close>

definition recent_problems :: "db \<Rightarrow> bool \<Rightarrow> int \<Rightarrow> time \<Rightarrow> problem list" where
  "recent_problems s isMunicipal userId thirtyDaysAgo =
     filter (\<lambda>p. thirtyDaysAgo \<le> created_at p \<and> (isMunicipal \<or> user_id p = userId)) (problems s)"

text \<open>The loop \<^verbatim>\<open>for (let i = 0; i < 30; i++)\<close> that keys the buckets; one clock reading \<open>now\<close> serves the request.\<close>

definition init_trendMap :: "zone \<Rightarrow> time \<Rightarrow> (int \<times> nat \<times> nat) list" where
  "init_trendMap z now =
     fold (\<lambda>i m. AList.update (iso_date (setDate_back z now (int i))) (0, 0) m) [0..<30] []"

text \<open>The body of \<^verbatim>\<open>problems.forEach\<close>.\<close>

definition trend_step :: "problem \<Rightarrow> (int \<times> nat \<times> nat) list \<Rightarrow> (int \<times> nat \<times> nat) list" where
  "trend_step p m =
     (let createdDate = iso_date (created_at p);
          m1 = (if map_of m createdDate \<noteq> None \<and> status p \<noteq> ''Resolved''
                then AList.map_entry createdDate (\<lambda>(a, r). (a + 1, r)) m
                else m)
      in case resolved_at p of
           None \<Rightarrow> m1
         | Some t \<Rightarrow>
             (let resolvedDate = iso_date t
              in if map_of m1 resolvedDate \<noteq> None
                 then AList.map_entry resolvedDate (\<lambda>(a, r). (a, r + 1)) m1
                 else m1))"

definition build_trends :: "zone \<Rightarrow> time \<Rightarrow> problem list \<Rightarrow> trend list" where
  "build_trends z now ps =
     sort_key date
       (map (\<lambda>(d, a, r). \<lparr>date = d, active = a, resolved = r\<rparr>)
          (fold trend_step ps (init_trendMap z now)))"

text \<open>
  \<^verbatim>\<open>resolvedComment.findMany({ include: { problem } })\<close>: every comment with the category of
  the problem it refers to. The relation is required, so a comment without its problem
  is not a row of the result.
\<close>

definition resolutionTimesRaw :: "db \<Rightarrow> (resolved_comment \<times> string) list" where
  "resolutionTimesRaw s =
     List.map_filter
       (\<lambda>c. map_option (\<lambda>p. (c, category p)) (find (\<lambda>p. pid p = problem_id c) (problems s)))
       (comments s)"

text \<open>The body of \<^verbatim>\<open>resolutionTimesRaw.forEach\<close>, the same in both handlers.\<close>

definition add_time :: "resolved_comment \<times> string \<Rightarrow> (string \<times> int \<times> nat) list \<Rightarrow> (string \<times> int \<times> nat) list" where
  "add_time ck m =
     (let cat = snd ck;
          m1 = (if map_of m cat = None then AList.update cat (0, 0) m else m)
      in AList.map_entry cat (\<lambda>(total, n). (total + time_taken (fst ck), n + 1)) m1)"

definition resolutionTimesMap :: "db \<Rightarrow> (string \<times> int \<times> nat) list" where
  "resolutionTimesMap s = fold add_time (resolutionTimesRaw s) []"

text \<open>\<^verbatim>\<open>Math.round\<close>: the nearest integer, a half rounded up.\<close>

definition js_round :: "real \<Rightarrow> int" where
  "js_round x = \<lfloor>x + 1 / 2\<rfloor>"

text \<open>\<^verbatim>\<open>GET /api/stats\<close>.\<close>

definition getStats :: "zone \<Rightarrow> db \<Rightarrow> user \<Rightarrow> time \<Rightarrow> stats" where
  "getStats z s u now =
     (let isMunicipal = (role u = ''municipal_admin'');
          userId = uid u;
          (total, act, res, urgent) =
            (if isMunicipal
             then (length (problems s),
                   length (filter (\<lambda>p. status p \<noteq> ''Resolved'') (problems s)),
                   length (filter (\<lambda>p. status p = ''Resolved'') (problems s)),
                   length (filter (\<lambda>p. is_urgent p \<and> status p \<noteq> ''Resolved'') (problems s)))
             else (length (filter (\<lambda>p. user_id p = userId) (problems s)),
                   length (filter (\<lambda>p. user_id p = userId \<and> status p \<noteq> ''Resolved'') (problems s)),
                   length (filter (\<lambda>p. user_id p = userId \<and> status p = ''Resolved'') (problems s)),
                   length (filter (\<lambda>p. user_id p = userId \<and> is_urgent p \<and> status p \<noteq> ''Resolved'')
                             (problems s))));
          avgSentimentResult = avg (map sentiment_score (problems s));
          thirtyDaysAgo = setDate_back z now 30
      in \<lparr>totalProblems = total, activeProblems = act, resolvedProblems = res,
          avgSentiment = or0 avgSentimentResult, urgentAlerts = urgent,
          activeClusters = length (clusters s),
          trends = build_trends z now (recent_problems s isMunicipal userId thirtyDaysAgo),
          resolutionTimes =
            map (\<lambda>(cat, total, n). (cat, real_of_int (js_round ((real_of_int total / real n) / 3600))))
              (resolutionTimesMap s)\<rparr>)"

section \<open>Strategic report\<close>











section \<open>Derived cluster statistics: what is claimed\<close>

text \<open>The mean in the spec's words: the arithmetic mean, 0 over the empty set.\<close>

definition mean0 :: "real list \<Rightarrow> real" where
  "mean0 xs = (if xs = [] then 0 else sum_list xs / real (length xs))"

text \<open>
  A cluster row is consistent when its stored count and mean are those of the problems
  that refer to it.
\<close>

definition cluster_consistent :: "db \<Rightarrow> cluster \<Rightarrow> bool" where
  "cluster_consistent s c =
     (problem_count c = int (length (members s (cl_id c))) \<and>
      avg_sentiment c = mean0 (map sentiment_score (members s (cl_id c))))"

definition all_consistent :: "db \<Rightarrow> bool" where
  "all_consistent s = list_all (cluster_consistent s) (clusters s)"

text \<open>What one refresh writes into a cluster row.\<close>

definition reconcile :: "db \<Rightarrow> cluster \<Rightarrow> cluster" where
  "reconcile s k = k\<lparr>problem_count := int (length (members s (cl_id k))),
                     avg_sentiment := mean0 (map sentiment_score (members s (cl_id k)))\<rparr>"

text \<open>
  The autoincrement counter lies above every cluster id in use, in a cluster row and in
  a problem's reference. It holds of the empty store and every request keeps it.
\<close>

definition ref_below :: "int \<Rightarrow> int option \<Rightarrow> bool" where
  "ref_below n r = (case r of None \<Rightarrow> True | Some c \<Rightarrow> c < n)"

definition ids_allocated :: "db \<Rightarrow> bool" where
  "ids_allocated s =
     (list_all (\<lambda>i. i < next_cluster_id s) (map cl_id (clusters s)) \<and>
      list_all (ref_below (next_cluster_id s)) (map cluster_id (problems s)))"

definition store_ok :: "db \<Rightarrow> bool" where
  "store_ok s = (all_consistent s \<and> ids_allocated s)"

text \<open>The cluster reference of the problem with a given id.\<close>

definition assigned_cluster :: "db \<Rightarrow> string \<Rightarrow> int option" where
  "assigned_cluster s i =
     (case find (\<lambda>p. pid p = i) (problems s) of None \<Rightarrow> None | Some p \<Rightarrow> cluster_id p)"

section \<open>Concrete inputs\<close>

text \<open>A case-sensitive engine without the uniqueness constraint, and the two seeded users.\<close>

definition cfg0 :: storage where
  "cfg0 = \<lparr>collate = (\<lambda>c. c), comment_per_problem_unique = False\<rparr>"

definition citizen :: user where
  "citizen = \<lparr>uid = 2, role = ''citizen_admin'', uname = ''Karthik''\<rparr>"

definition officer :: user where
  "officer = \<lparr>uid = 1, role = ''municipal_admin'', uname = ''City Officer''\<rparr>"

definition verdict :: "string \<Rightarrow> real \<Rightarrow> string \<Rightarrow> analysis" where
  "verdict sg sc cat =
     \<lparr>an_sentiment_label = ''Negative'', an_sentiment_score = sc, an_priority_score = 5,
      an_is_urgent = False, an_category = cat, cluster_suggestion = sg\<rparr>"

definition report :: "string \<Rightarrow> real \<Rightarrow> string \<Rightarrow> problem_body" where
  "report sg sc cat =
     \<lparr>b_title = ''Leak'', b_description = ''Pipe burst'', b_category = cat,
      b_location = ''Kottapeta'', b_image_url = None, b_analysis = Some (verdict sg sc cat)\<rparr>"

definition leak1 :: request where
  "leak1 = PostProblem citizen 1000 ''p1'' (report ''Water Leakage'' (- 4 / 5) ''Water'')"

definition leak2 :: request where
  "leak2 = PostProblem citizen 2000 ''p2'' (report ''Water'' (- 2 / 5) ''Water'')"

text \<open>The cluster row after the first of the two reports, and a store holding the one cluster "Water".\<close>

definition leak_cluster :: cluster where
  "leak_cluster = \<lparr>cl_id = 1, cluster_name = ''Water Leakage'', area = ''Kottapeta'',
                    problem_count = 1, avg_sentiment = - 4 / 5\<rparr>"


section \<open>Report lifecycle and feedback: what is claimed\<close>

text \<open>
  The clock a request reads, and a run whose readings never go backwards from a start
  \<open>T\<close>. The sweep reads no clock.
\<close>

fun clock_of :: "time \<Rightarrow> request \<Rightarrow> time" where
  "clock_of T (PostProblem u now new_id body) = now"
| "clock_of T (PatchStatus u now i st) = now"
| "clock_of T (PostComment u now commentId i rt cm) = now"
| "clock_of T RefreshAll = T"

fun clock_ok :: "time \<Rightarrow> request list \<Rightarrow> bool" where
  "clock_ok T [] = True"
| "clock_ok T (r # rs) = (T \<le> clock_of T r \<and> clock_ok (clock_of T r) rs)"

fun clock_end :: "time \<Rightarrow> request list \<Rightarrow> time" where
  "clock_end T [] = T"
| "clock_end T (r # rs) = clock_end (clock_of T r) rs"

text \<open>
  The part of the spec's report invariant that the handlers keep: a report with status
  \<^verbatim>\<open>Resolved\<close> has \<^verbatim>\<open>resolved_at\<close> set, and a set \<^verbatim>\<open>resolved_at\<close> is not before
  \<^verbatim>\<open>created_at\<close>. \<open>T\<close> bounds the timestamps written so far.
\<close>

definition stamped :: "time \<Rightarrow> problem \<Rightarrow> bool" where
  "stamped T p =
     (created_at p \<le> T \<and>
      (case resolved_at p of
         None \<Rightarrow> status p \<noteq> ''Resolved''
       | Some r \<Rightarrow> created_at p \<le> r \<and> r \<le> T))"

definition lifecycle_ok :: "time \<Rightarrow> db \<Rightarrow> bool" where
  "lifecycle_ok T s = list_all (stamped T) (problems s)"

text \<open>The spec's invariant in full: \<^verbatim>\<open>resolved_at\<close> is set if and only if the status is \<^verbatim>\<open>Resolved\<close>.\<close>

definition resolved_iff :: "problem \<Rightarrow> bool" where
  "resolved_iff p = ((resolved_at p \<noteq> None) = (status p = ''Resolved''))"

text \<open>The row a successful feedback inserts.\<close>

definition new_comment :: "string \<Rightarrow> string \<Rightarrow> user \<Rightarrow> string \<Rightarrow> string \<Rightarrow> int \<Rightarrow> time \<Rightarrow> resolved_comment" where
  "new_comment commentId i u rt cm tt now =
     \<lparr>rc_id = commentId, problem_id = i, citizen_id = uid u, rating = rt, comment = cm,
      time_taken = tt, rc_created_at = now\<rparr>"

text \<open>An engine that declares \<^verbatim>\<open>problem_id\<close> unique, and the requests of the scenarios.\<close>

definition cfg1 :: storage where
  "cfg1 = \<lparr>collate = (\<lambda>c. c), comment_per_problem_unique = True\<rparr>"

definition resolve1 :: request where
  "resolve1 = PatchStatus officer 5000 ''p1'' ''Resolved''"

definition reopen1 :: request where
  "reopen1 = PatchStatus officer 6000 ''p1'' ''Pending''"

definition thank1 :: request where
  "thank1 = PostComment citizen 7000 ''c1'' ''p1'' ''Good'' ''Thank you''"

section \<open>Trends: what is claimed\<close>

text \<open>
  What a report adds to the bucket of day \<open>d\<close>: one to \<open>active\<close> when it was created on
  \<open>d\<close> and is not Resolved now, one to \<open>resolved\<close> when it was resolved on \<open>d\<close>.
\<close>

definition counts_active :: "int \<Rightarrow> problem \<Rightarrow> bool" where
  "counts_active d p = (iso_date (created_at p) = d \<and> status p \<noteq> ''Resolved'')"

definition counts_resolved :: "int \<Rightarrow> problem \<Rightarrow> bool" where
  "counts_resolved d p = (map_option iso_date (resolved_at p) = Some d)"

definition bump :: "problem \<Rightarrow> int \<Rightarrow> nat \<times> nat \<Rightarrow> nat \<times> nat" where
  "bump p d v = (fst v + (if counts_active d p then 1 else 0),
                 snd v + (if counts_resolved d p then 1 else 0))"

text \<open>The reports the trend query fetches: created at or after \<^verbatim>\<open>thirtyDaysAgo\<close>, in the caller's scope.\<close>

definition in_trend_scope :: "zone \<Rightarrow> user \<Rightarrow> time \<Rightarrow> problem \<Rightarrow> bool" where
  "in_trend_scope z u now p =
     (setDate_back z now 30 \<le> created_at p \<and> (role u = ''municipal_admin'' \<or> user_id p = uid u))"

text \<open>A zone whose offset from UTC never changes.\<close>

definition fixed_offset :: "zone \<Rightarrow> int \<Rightarrow> bool" where
  "fixed_offset z k = (\<forall>t. utc_offset z t = k \<and> local_offset z t = k)"

text \<open>
  Two zones: UTC, and Europe/Berlin around the change to summer time on 30 March 2025
  at 01:00 UTC (02:00 local time becomes 03:00), when the offset goes from one hour to
  two.
\<close>

definition utc :: zone where
  "utc = \<lparr>utc_offset = (\<lambda>t. 0), local_offset = (\<lambda>t. 0)\<rparr>"

definition berlin :: zone where
  "berlin = \<lparr>utc_offset = (\<lambda>t. if t < 1743296400000 then 3600000 else 7200000),
             local_offset = (\<lambda>t. if t < 1743303600000 then 3600000 else 7200000)\<rparr>"

text \<open>Noon UTC of a day, and a report filed on day 60 and resolved on day 99.\<close>

definition noon :: "int \<Rightarrow> time" where
  "noon d = d * 86400000 + 43200000"

definition old_leak :: request where
  "old_leak = PostProblem citizen (noon 60) ''p1'' (report ''Water Leakage'' (- 4 / 5) ''Water'')"

definition old_fixed :: request where
  "old_fixed = PatchStatus officer (noon 99) ''p1'' ''Resolved''"

definition new_leak :: request where
  "new_leak = PostProblem citizen (noon 98) ''p1'' (report ''Water Leakage'' (- 4 / 5) ''Water'')"

text \<open>A second citizen, and a report of theirs.\<close>

definition neighbour :: user where
  "neighbour = \<lparr>uid = 3, role = ''citizen_admin'', uname = ''Neighbour''\<rparr>"

definition neighbour2 :: request where
  "neighbour2 = PostProblem neighbour 2000 ''p2'' (report ''Water'' (- 2 / 5) ''Water'')"

section \<open>Resolution times and the strategic report: what is claimed\<close>



text \<open>The running totals of a category over a list of feedback rows.\<close>

definition tally :: "string \<Rightarrow> (resolved_comment \<times> string) list \<Rightarrow> int \<times> nat" where
  "tally c xs = (sum_list (map (\<lambda>ck. time_taken (fst ck)) (filter (\<lambda>ck. snd ck = c) xs)),
                 length (filter (\<lambda>ck. snd ck = c) xs))"

definition plus_tally :: "(int \<times> nat) option \<Rightarrow> int \<times> nat \<Rightarrow> int \<times> nat" where
  "plus_tally v w = (case v of None \<Rightarrow> w | Some (t, n) \<Rightarrow> (t + fst w, n + snd w))"







section \<open>Cluster statistics\<close>

text \<open>A refresh changes cluster rows only, and only by writing the reconciled row.\<close>

lemma or0_avg: "or0 (avg xs) = mean0 xs"
  by (simp add: or0_def avg_def mean0_def)

lemma problems_refresh [simp]: "problems (refresh_cluster_stats s c) = problems s"
  by (simp add: refresh_cluster_stats_def Let_def)

lemma comments_refresh [simp]: "comments (refresh_cluster_stats s c) = comments s"
  by (simp add: refresh_cluster_stats_def Let_def)

lemma members_refresh [simp]: "members (refresh_cluster_stats s c) k = members s k"
  by (simp add: members_def)

lemma members_cong: "problems s = problems t \<Longrightarrow> members s k = members t k"
  by (simp add: members_def)

lemma consistent_cong: "problems s = problems t \<Longrightarrow> cluster_consistent s c = cluster_consistent t c"
  by (simp add: cluster_consistent_def members_def)

lemma clusters_refresh:
  "clusters (refresh_cluster_stats s c) = map (\<lambda>k. if cl_id k = c then reconcile s k else k) (clusters s)"
  by (auto simp add: refresh_cluster_stats_def Let_def or0_avg reconcile_def)

lemma cl_id_reconcile [simp]: "cl_id (reconcile s k) = cl_id k"
  by (simp add: reconcile_def)

lemma consistent_reconcile: "problems t = problems s \<Longrightarrow> cluster_consistent t (reconcile s k)"
  by (simp add: cluster_consistent_def reconcile_def members_def)

lemma reconcile_consistent: "cluster_consistent s k \<Longrightarrow> reconcile s k = k"
  by (simp add: cluster_consistent_def reconcile_def)

lemma reconcile_cong: "problems t = problems s \<Longrightarrow> reconcile t k = reconcile s k"
  by (simp add: reconcile_def members_def)

lemma reconcile_idem: "reconcile s (reconcile s k) = reconcile s k"
  by (simp add: reconcile_def)

lemma refresh_idem: "refresh_cluster_stats (refresh_cluster_stats s k) k = refresh_cluster_stats s k"
proof -
  have "clusters (refresh_cluster_stats (refresh_cluster_stats s k) k) = clusters (refresh_cluster_stats s k)"
    by (simp add: clusters_refresh[of "refresh_cluster_stats s k"] clusters_refresh[of s] reconcile_idem
        reconcile_cong[of "refresh_cluster_stats s k" s] cong: if_cong)
  then show ?thesis
    by (simp add: refresh_cluster_stats_def[of "refresh_cluster_stats s k"] Let_def)
qed

lemma all_consistent_refresh:
  assumes "all_consistent s"
  shows "all_consistent (refresh_cluster_stats s c)"
proof -
  have eq: "cluster_consistent (refresh_cluster_stats s c) k = cluster_consistent s k" for k
    by (rule consistent_cong) simp
  have "cluster_consistent s k'"
    if "k' \<in> set (clusters (refresh_cluster_stats s c))" for k'
  proof -
    from that have "k' \<in> (\<lambda>k. if cl_id k = c then reconcile s k else k) ` set (clusters s)"
      by (simp add: clusters_refresh)
    then obtain k where k: "k \<in> set (clusters s)"
      and k': "k' = (if cl_id k = c then reconcile s k else k)"
      by blast
    from k assms have "cluster_consistent s k"
      by (simp add: all_consistent_def list_all_iff)
    then show ?thesis
      using k' by (simp add: reconcile_consistent)
  qed
  then show ?thesis
    by (simp add: all_consistent_def list_all_iff eq)
qed

lemma refreshed_consistent:
  assumes "k \<in> set (clusters (refresh_cluster_stats s c))" and "cl_id k = c"
  shows "cluster_consistent (refresh_cluster_stats s c) k"
proof -
  from assms(1) have "k \<in> (\<lambda>k. if cl_id k = c then reconcile s k else k) ` set (clusters s)"
    by (simp add: clusters_refresh)
  then obtain k0 where "k = (if cl_id k0 = c then reconcile s k0 else k0)"
    by blast
  with assms(2) have "k = reconcile s k0"
    by (simp split: if_splits)
  then show ?thesis
    by (simp add: consistent_reconcile)
qed

text \<open>A problem added to cluster \<open>c\<close> leaves the members of every other cluster alone.\<close>

lemma members_append_other:
  "cluster_id p \<noteq> Some k \<Longrightarrow> members (s\<lparr>problems := problems s @ [p]\<rparr>) k = members s k"
  by (simp add: members_def)

lemma all_consistent_insert_refresh:
  assumes "all_consistent s" and "cluster_id p = Some c"
  shows "all_consistent (refresh_cluster_stats (s\<lparr>problems := problems s @ [p]\<rparr>) c)"
proof -
  let ?t = "s\<lparr>problems := problems s @ [p]\<rparr>"
  have "cluster_consistent (refresh_cluster_stats ?t c) k"
    if "k \<in> set (clusters (refresh_cluster_stats ?t c))" for k
  proof (cases "cl_id k = c")
    case True
    with that show ?thesis by (rule refreshed_consistent)
  next
    case False
    with that have k: "k \<in> set (clusters s)"
      by (auto simp add: clusters_refresh)
    with assms(1) have "cluster_consistent s k"
      by (simp add: all_consistent_def list_all_iff)
    moreover have "members ?t (cl_id k) = members s (cl_id k)"
      using False assms(2) by (simp add: members_append_other)
    ultimately show ?thesis
      by (simp add: cluster_consistent_def)
  qed
  then show ?thesis
    by (simp add: all_consistent_def list_all_iff)
qed

lemma create_cluster_simps [simp]:
  "problems (fst (create_cluster s nm ar)) = problems s"
  "comments (fst (create_cluster s nm ar)) = comments s"
  "clusters (fst (create_cluster s nm ar)) = clusters s @ [snd (create_cluster s nm ar)]"
  "cl_id (snd (create_cluster s nm ar)) = next_cluster_id s"
  "cluster_name (snd (create_cluster s nm ar)) = nm"
  "area (snd (create_cluster s nm ar)) = ar"
  "problem_count (snd (create_cluster s nm ar)) = 0"
  "avg_sentiment (snd (create_cluster s nm ar)) = 0"
  by (simp_all add: create_cluster_def Let_def)

lemma resolve_cluster_problems [simp]:
  "problems (fst (resolve_cluster cfg s sg loc)) = problems s"
  "comments (fst (resolve_cluster cfg s sg loc)) = comments s"
  by (simp_all add: resolve_cluster_def split: option.split)

lemma resolve_cluster_mem:
  "snd (resolve_cluster cfg s sg loc) \<in> set (clusters (fst (resolve_cluster cfg s sg loc)))"
  by (auto simp add: resolve_cluster_def findFirst_cluster_def find_Some_iff split: option.split)

lemma post_problem_unfold:
  "post_problem cfg s u now new_id body =
     (if \<not> authorize [''citizen_admin''] u then (s, Inl (Http 403 ''Forbidden''))
      else case b_analysis body of
        None \<Rightarrow> (s, Inl (Http 500 ''Failed to save problem''))
      | Some an \<Rightarrow>
          (let s1 = fst (resolve_cluster cfg s (cluster_suggestion an) (b_location body));
               c = snd (resolve_cluster cfg s (cluster_suggestion an) (b_location body))
           in if \<exists>p \<in> set (problems s). pid p = new_id
              then (s1, Inl (Http 500 ''Failed to save problem''))
              else (refresh_cluster_stats
                      (s1\<lparr>problems := problems s1 @ [new_problem new_id u now body an (cl_id c)]\<rparr>)
                      (cl_id c),
                    Inr (new_id, an))))"
  by (simp add: post_problem_def Let_def case_prod_beta split: option.split)

lemma all_consistent_append_cluster:
  assumes "all_consistent s" and "cluster_consistent s c"
  shows "all_consistent (s\<lparr>clusters := clusters s @ [c]\<rparr>)"
  using assms by (simp add: all_consistent_def list_all_iff cluster_consistent_def members_def)

lemma next_id_refresh [simp]: "next_cluster_id (refresh_cluster_stats s c) = next_cluster_id s"
  by (simp add: refresh_cluster_stats_def Let_def)

lemma cl_id_refresh: "map cl_id (clusters (refresh_cluster_stats s c)) = map cl_id (clusters s)"
  by (simp add: clusters_refresh comp_def if_distrib cong: if_cong)

lemma ids_allocated_refresh:
  assumes "ids_allocated s"
  shows "ids_allocated (refresh_cluster_stats s c)"
  using assms by (simp add: ids_allocated_def cl_id_refresh)

lemma store_ok_resolve:
  assumes "store_ok s"
  shows "store_ok (fst (resolve_cluster cfg s sg loc))"
proof (cases "findFirst_cluster cfg sg (clusters s)")
  case (Some c)
  with assms show ?thesis by (simp add: resolve_cluster_def)
next
  case None
  let ?c = "snd (create_cluster s sg loc)"
  have no: "members s (next_cluster_id s) = []"
    using assms
    by (auto simp add: store_ok_def ids_allocated_def list_all_iff members_def filter_empty_conv ref_below_def)
  have "cluster_consistent s ?c"
    by (simp add: cluster_consistent_def no mean0_def)
  moreover have "fst (create_cluster s sg loc) =
      (s\<lparr>clusters := clusters s @ [?c]\<rparr>)\<lparr>next_cluster_id := next_cluster_id s + 1\<rparr>"
    by (simp add: create_cluster_def Let_def)
  moreover have "all_consistent (t\<lparr>next_cluster_id := n\<rparr>) = all_consistent t" for t n
    by (simp add: all_consistent_def cluster_consistent_def[abs_def] members_def)
  ultimately have "all_consistent (fst (create_cluster s sg loc))"
    using assms by (simp add: store_ok_def all_consistent_append_cluster)
  moreover have "ids_allocated (fst (create_cluster s sg loc))"
    using assms
    by (auto simp add: store_ok_def ids_allocated_def list_all_iff create_cluster_def Let_def
        ref_below_def split: option.splits)
  ultimately show ?thesis
    using None by (simp add: resolve_cluster_def store_ok_def)
qed

lemma resolve_cluster_id_allocated:
  assumes "ids_allocated s"
  shows "cl_id (snd (resolve_cluster cfg s sg loc)) < next_cluster_id (fst (resolve_cluster cfg s sg loc))"
  using assms
  by (auto simp add: resolve_cluster_def ids_allocated_def list_all_iff findFirst_cluster_def
      find_Some_iff create_cluster_def Let_def split: option.split)

lemma ids_allocated_insert:
  assumes "ids_allocated s" and "cluster_id p = Some c" and "c < next_cluster_id s"
  shows "ids_allocated (s\<lparr>problems := problems s @ [p]\<rparr>)"
  using assms by (simp add: ids_allocated_def ref_below_def)

lemma post_problem_store_ok:
  assumes "store_ok s"
  shows "store_ok (fst (post_problem cfg s u now new_id body))"
proof (cases "authorize [''citizen_admin''] u")
  case False
  with assms show ?thesis by (simp add: post_problem_unfold)
next
  case True
  show ?thesis
  proof (cases "b_analysis body")
    case None
    with assms True show ?thesis by (simp add: post_problem_unfold)
  next
    case (Some an)
    let ?r = "resolve_cluster cfg s (cluster_suggestion an) (b_location body)"
    let ?p = "new_problem new_id u now body an (cl_id (snd ?r))"
    have ok1: "store_ok (fst ?r)"
      using assms by (rule store_ok_resolve)
    show ?thesis
    proof (cases "\<exists>p \<in> set (problems s). pid p = new_id")
      case dup: True
      with True Some ok1 show ?thesis
        by (simp add: post_problem_unfold Let_def)
    next
      case fresh: False
      have cid: "cluster_id ?p = Some (cl_id (snd ?r))"
        by (simp add: new_problem_def)
      have "all_consistent (refresh_cluster_stats (fst ?r\<lparr>problems := problems (fst ?r) @ [?p]\<rparr>) (cl_id (snd ?r)))"
        using ok1 cid by (simp only: store_ok_def all_consistent_insert_refresh)
      moreover have "ids_allocated (refresh_cluster_stats (fst ?r\<lparr>problems := problems (fst ?r) @ [?p]\<rparr>) (cl_id (snd ?r)))"
      proof (intro ids_allocated_refresh ids_allocated_insert)
        show "ids_allocated (fst ?r)" using ok1 by (simp add: store_ok_def)
        show "cluster_id ?p = Some (cl_id (snd ?r))" by (rule cid)
        show "cl_id (snd ?r) < next_cluster_id (fst ?r)"
          using assms by (intro resolve_cluster_id_allocated) (simp add: store_ok_def)
      qed
      ultimately show ?thesis
        using True Some fresh by (simp add: post_problem_unfold Let_def store_ok_def)
    qed
  qed
qed

lemma members_map:
  assumes "\<And>p. cluster_id (f p) = cluster_id p"
  shows "members (s\<lparr>problems := map f (problems s)\<rparr>) k = map f (members s k)"
  by (simp add: members_def filter_map comp_def assms)

lemma all_consistent_map:
  assumes "all_consistent s"
    and "\<And>p. cluster_id (f p) = cluster_id p"
    and "\<And>p. sentiment_score (f p) = sentiment_score p"
  shows "all_consistent (s\<lparr>problems := map f (problems s)\<rparr>)"
  using assms(1)
  by (simp add: all_consistent_def cluster_consistent_def[abs_def] members_map[of f, OF assms(2)]
      comp_def assms(3))

lemma ids_allocated_map:
  assumes "ids_allocated s" and "\<And>p. cluster_id (f p) = cluster_id p"
  shows "ids_allocated (s\<lparr>problems := map f (problems s)\<rparr>)"
  using assms(1) by (simp add: ids_allocated_def comp_def assms(2))

lemma patch_status_store_ok:
  assumes "store_ok s"
  shows "store_ok (fst (patch_status s u now i st))"
  using assms
  by (simp add: patch_status_def store_ok_def all_consistent_map ids_allocated_map)

lemma post_comment_store_ok:
  assumes "store_ok s"
  shows "store_ok (fst (post_comment cfg s u now ci i rt cm))"
proof -
  have "store_ok (s\<lparr>comments := cs\<rparr>)" for cs :: "resolved_comment list"
    using assms
    by (simp add: store_ok_def all_consistent_def cluster_consistent_def[abs_def] members_def
        ids_allocated_def)
  with assms show ?thesis
    by (simp add: post_comment_def Let_def split: option.split)
qed

lemma store_ok_refresh: "store_ok s \<Longrightarrow> store_ok (refresh_cluster_stats s c)"
  by (simp add: store_ok_def all_consistent_refresh ids_allocated_refresh)

lemma refresh_all_store_ok:
  assumes "store_ok s"
  shows "store_ok (refresh_all s)"
proof -
  have "store_ok (fold (\<lambda>c t. refresh_cluster_stats t (cl_id c)) cs t)" if "store_ok t" for cs :: "cluster list" and t
    using that by (induction cs arbitrary: t) (simp_all add: store_ok_refresh)
  with assms show ?thesis
    by (simp add: refresh_all_def)
qed

lemma handle_store_ok: "store_ok s \<Longrightarrow> store_ok (handle cfg s r)"
  by (cases r)
     (simp_all add: post_problem_store_ok patch_status_store_ok post_comment_store_ok
        refresh_all_store_ok)

lemma run_store_ok: "store_ok s \<Longrightarrow> store_ok (run cfg s rs)"
  by (induction rs arbitrary: s) (simp_all add: handle_store_ok)

lemma store_ok_empty: "store_ok empty_db"
  by (simp add: store_ok_def all_consistent_def ids_allocated_def empty_db_def)

lemma find_append:
  "find P (xs @ ys) = (case find P xs of None \<Rightarrow> find P ys | Some x \<Rightarrow> Some x)"
  by (induction xs) simp_all

lemma find_None_fresh: "\<not> (\<exists>p \<in> set ps. pid p = i) \<Longrightarrow> find (\<lambda>p. pid p = i) ps = None"
  by (simp add: find_None_iff)

lemma post_problem_success:
  assumes "post_problem cfg s u now new_id body = (s', Inr r)"
  shows "\<exists>an. b_analysis body = Some an \<and> authorize [''citizen_admin''] u \<and>
     \<not> (\<exists>p \<in> set (problems s). pid p = new_id) \<and> r = (new_id, an) \<and>
     s' = refresh_cluster_stats
            (fst (resolve_cluster cfg s (cluster_suggestion an) (b_location body))
               \<lparr>problems := problems s @
                  [new_problem new_id u now body an
                     (cl_id (snd (resolve_cluster cfg s (cluster_suggestion an) (b_location body))))]\<rparr>)
            (cl_id (snd (resolve_cluster cfg s (cluster_suggestion an) (b_location body))))"
  using assms
  by (auto simp add: post_problem_unfold Let_def split: if_splits option.splits)

lemma post_problem_assigned:
  assumes "post_problem cfg s u now new_id body = (s', Inr r)"
  shows "(\<exists>c \<in> set (clusters s'). assigned_cluster s' new_id = Some (cl_id c)) \<and>
         (\<forall>c \<in> set (clusters s'). assigned_cluster s' new_id = Some (cl_id c) \<longrightarrow> cluster_consistent s' c)"
proof -
  from post_problem_success[OF assms] obtain an where
    fresh: "\<not> (\<exists>p \<in> set (problems s). pid p = new_id)" and
    s': "s' = refresh_cluster_stats
            (fst (resolve_cluster cfg s (cluster_suggestion an) (b_location body))
               \<lparr>problems := problems s @
                  [new_problem new_id u now body an
                     (cl_id (snd (resolve_cluster cfg s (cluster_suggestion an) (b_location body))))]\<rparr>)
            (cl_id (snd (resolve_cluster cfg s (cluster_suggestion an) (b_location body))))"
    by blast
  let ?r = "resolve_cluster cfg s (cluster_suggestion an) (b_location body)"
  let ?t = "fst ?r\<lparr>problems := problems s @ [new_problem new_id u now body an (cl_id (snd ?r))]\<rparr>"
  have asg: "assigned_cluster s' new_id = Some (cl_id (snd ?r))"
    using fresh by (simp add: s' assigned_cluster_def find_append find_None_fresh new_problem_def)
  have "snd ?r \<in> set (clusters ?t)"
    using resolve_cluster_mem[of cfg s "cluster_suggestion an" "b_location body"] by simp
  then have "reconcile ?t (snd ?r) \<in> set (clusters s')"
    unfolding s' clusters_refresh by (auto simp add: image_iff intro!: bexI[of _ "snd ?r"])
  then have ex: "\<exists>c \<in> set (clusters s'). assigned_cluster s' new_id = Some (cl_id c)"
    using asg by (auto intro!: bexI[of _ "reconcile ?t (snd ?r)"])
  have "cluster_consistent s' c" if "c \<in> set (clusters s')" "cl_id c = cl_id (snd ?r)" for c
    using that unfolding s' by (rule refreshed_consistent)
  with ex asg show ?thesis by simp
qed

lemma fold_refresh:
  "clusters (fold (\<lambda>c t. refresh_cluster_stats t (cl_id c)) cs t) =
     map (\<lambda>k. if cl_id k \<in> cl_id ` set cs then reconcile t k else k) (clusters t) \<and>
   problems (fold (\<lambda>c t. refresh_cluster_stats t (cl_id c)) cs t) = problems t \<and>
   comments (fold (\<lambda>c t. refresh_cluster_stats t (cl_id c)) cs t) = comments t \<and>
   next_cluster_id (fold (\<lambda>c t. refresh_cluster_stats t (cl_id c)) cs t) = next_cluster_id t"
proof (induction cs arbitrary: t)
  case Nil
  show ?case by (simp add: map_idI)
next
  case (Cons c cs)
  have rc: "reconcile (refresh_cluster_stats t (cl_id c)) = reconcile t"
    by (rule ext, rule reconcile_cong) simp
  show ?case
    by (simp add: Cons.IH rc clusters_refresh reconcile_idem)
qed

lemma clusters_refresh_all: "clusters (refresh_all s) = map (reconcile s) (clusters s)"
  by (simp add: refresh_all_def fold_refresh)

lemma refresh_all_rest [simp]:
  "problems (refresh_all s) = problems s"
  "comments (refresh_all s) = comments s"
  "next_cluster_id (refresh_all s) = next_cluster_id s"
  by (simp_all add: refresh_all_def fold_refresh)

lemma refresh_all_consistent: "all_consistent (refresh_all s)"
  by (simp add: all_consistent_def list_all_iff clusters_refresh_all consistent_reconcile)

lemma refresh_all_idem: "refresh_all (refresh_all s) = refresh_all s"
proof -
  have "reconcile (refresh_all s) = reconcile s"
    by (rule ext, rule reconcile_cong) simp
  then have "clusters (refresh_all (refresh_all s)) = clusters (refresh_all s)"
    by (simp add: clusters_refresh_all[of "refresh_all s"] clusters_refresh_all[of s] reconcile_idem)
  then show ?thesis
    by (intro db.equality) simp_all
qed

text \<open>
  Claim C1. A successful submission leaves the cluster it assigned with a stored count
  equal to the number of problems that refer to it and a stored mean equal to the
  arithmetic mean of their sentiment scores, whatever the store held before. Every
  cluster is consistent after any run of requests from a consistent store, in particular
  from the empty one, and after the sweep from any store; a refresh run twice writes
  what it wrote the first time.
\<close>

theorem cluster_stats_reconciled:
  "(post_problem cfg s u now new_id body = (s', Inr r) \<longrightarrow>
      (\<exists>c \<in> set (clusters s'). assigned_cluster s' new_id = Some (cl_id c)) \<and>
      (\<forall>c \<in> set (clusters s'). assigned_cluster s' new_id = Some (cl_id c) \<longrightarrow> cluster_consistent s' c)) \<and>
   (store_ok s \<longrightarrow> all_consistent (run cfg s rs)) \<and>
   all_consistent (run cfg empty_db rs) \<and>
   all_consistent (refresh_all s) \<and>
   refresh_cluster_stats (refresh_cluster_stats s k) k = refresh_cluster_stats s k \<and>
   refresh_all (refresh_all s) = refresh_all s"
proof (intro conjI impI)
  assume "post_problem cfg s u now new_id body = (s', Inr r)"
  from post_problem_assigned[OF this]
  show "\<exists>c \<in> set (clusters s'). assigned_cluster s' new_id = Some (cl_id c)"
    and "\<forall>c \<in> set (clusters s'). assigned_cluster s' new_id = Some (cl_id c) \<longrightarrow> cluster_consistent s' c"
    by simp_all
next
  assume "store_ok s"
  then have "store_ok (run cfg s rs)" by (rule run_store_ok)
  then show "all_consistent (run cfg s rs)" by (simp add: store_ok_def)
next
  have "store_ok (run cfg empty_db rs)" using store_ok_empty by (rule run_store_ok)
  then show "all_consistent (run cfg empty_db rs)" by (simp add: store_ok_def)
qed (rule refresh_all_consistent refresh_idem refresh_all_idem)+

lemmas eval_defs =
  post_problem_def patch_status_def post_comment_def authorize_def resolve_cluster_def
  findFirst_cluster_def contains_def create_cluster_def refresh_cluster_stats_def
  refresh_all_def members_def new_problem_def avg_def or0_def Let_def
  cfg0_def citizen_def officer_def verdict_def report_def empty_db_def

theorem cluster_stats_reconciled_witness:
  "snd (post_problem cfg0 empty_db citizen 1000 ''p1'' (report ''Water Leakage'' (- 4 / 5) ''Water''))
     = Inr (''p1'', verdict ''Water Leakage'' (- 4 / 5) ''Water'') \<and>
   (\<exists>c \<in> set (clusters (handle cfg0 empty_db leak1)).
      assigned_cluster (handle cfg0 empty_db leak1) ''p1'' = Some (cl_id c)) \<and>
   store_ok empty_db \<and>
   all_consistent (run cfg0 empty_db [leak1, RefreshAll, leak2])"
proof -
  have e: "post_problem cfg0 empty_db citizen 1000 ''p1'' (report ''Water Leakage'' (- 4 / 5) ''Water'')
      = (handle cfg0 empty_db leak1, Inr (''p1'', verdict ''Water Leakage'' (- 4 / 5) ''Water''))"
    by (simp add: prod_eq_iff leak1_def) (simp add: eval_defs)
  have ok: "store_ok empty_db"
    by (rule store_ok_empty)
  from e ok
    cluster_stats_reconciled[of cfg0 empty_db citizen 1000 "''p1''"
      "report ''Water Leakage'' (- 4 / 5) ''Water''" "handle cfg0 empty_db leak1"
      "(''p1'', verdict ''Water Leakage'' (- 4 / 5) ''Water'')" "[leak1, RefreshAll, leak2]" 1]
  show ?thesis by simp
qed

section \<open>Cluster resolution\<close>














section \<open>Status updates\<close>

lemma stamped_mono: "stamped T p \<Longrightarrow> T \<le> T' \<Longrightarrow> stamped T' p"
  by (auto simp add: stamped_def split: option.splits)

lemma lifecycle_mono: "lifecycle_ok T s \<Longrightarrow> T \<le> T' \<Longrightarrow> lifecycle_ok T' s"
  by (auto simp add: lifecycle_ok_def list_all_iff intro: stamped_mono)

lemma problems_post_problem:
  "problems (fst (post_problem cfg s u now new_id body)) = problems s \<or>
   (\<exists>an c. problems (fst (post_problem cfg s u now new_id body)) =
      problems s @ [new_problem new_id u now body an c])"
  by (auto simp add: post_problem_unfold Let_def split: option.split)

lemma stamped_new: "stamped now (new_problem i u now body an c)"
  by (simp add: stamped_def new_problem_def)

lemma post_problem_lifecycle:
  assumes "lifecycle_ok T s" and "T \<le> now"
  shows "lifecycle_ok now (fst (post_problem cfg s u now new_id body))"
proof -
  from assms have "lifecycle_ok now s" by (rule lifecycle_mono)
  with problems_post_problem[of cfg s u now new_id body] show ?thesis
    by (auto simp add: lifecycle_ok_def stamped_new)
qed

lemma patch_status_lifecycle:
  assumes "lifecycle_ok T s" and "T \<le> now"
  shows "lifecycle_ok now (fst (patch_status s u now i st))"
proof -
  from assms have ok: "lifecycle_ok now s" by (rule lifecycle_mono)
  have a: "stamped now (p\<lparr>status := st', resolved_at := Some now\<rparr>)" if "stamped now p" for p st'
    using that by (simp add: stamped_def)
  have b: "stamped now (p\<lparr>status := st\<rparr>)" if "stamped now p" "st \<noteq> ''Resolved''" for p
    using that by (simp add: stamped_def split: option.splits)
  from ok show ?thesis
    by (auto simp add: patch_status_def lifecycle_ok_def list_all_iff a b)
qed

lemma post_comment_problems [simp]:
  "problems (fst (post_comment cfg s u now ci i rt cm)) = problems s"
  by (simp add: post_comment_def Let_def split: option.split)

lemma post_comment_lifecycle:
  assumes "lifecycle_ok T s" and "T \<le> now"
  shows "lifecycle_ok now (fst (post_comment cfg s u now ci i rt cm))"
  using lifecycle_mono[OF assms] by (simp add: lifecycle_ok_def)

lemma handle_lifecycle:
  assumes "lifecycle_ok T s" and "T \<le> clock_of T r"
  shows "lifecycle_ok (clock_of T r) (handle cfg s r)"
  using assms
  by (cases r)
     (simp_all add: post_problem_lifecycle patch_status_lifecycle post_comment_lifecycle,
      simp add: lifecycle_ok_def)

lemma run_lifecycle:
  "lifecycle_ok T s \<Longrightarrow> clock_ok T rs \<Longrightarrow> lifecycle_ok (clock_end T rs) (run cfg s rs)"
  by (induction rs arbitrary: T s) (simp_all add: handle_lifecycle)

lemma stamped_facts:
  assumes "stamped T p"
  shows "(status p = ''Resolved'' \<longrightarrow> resolved_at p \<noteq> None) \<and>
         (\<forall>r. resolved_at p = Some r \<longrightarrow> created_at p \<le> r)"
  using assms by (auto simp add: stamped_def split: option.splits)

text \<open>A status other than Resolved is written over a Resolved report and keeps the stamp.\<close>

lemma patch_status_reopen:
  assumes "authorize [''municipal_admin''] u" and "p \<in> set (problems s)" and "pid p = i"
    and "st \<noteq> ''Resolved''"
  shows "snd (patch_status s u now i st) = Inr () \<and>
         p\<lparr>status := st\<rparr> \<in> set (problems (fst (patch_status s u now i st)))"
  using assms by (auto simp add: patch_status_def image_iff intro!: bexI[of _ p])

lemma resolved_at_kept:
  "map (\<lambda>p. resolved_at p \<noteq> None) (problems s) = bs \<Longrightarrow>
   list_all2 (\<lambda>b b'. b \<longrightarrow> b') bs (map (\<lambda>p. resolved_at p \<noteq> None) (problems (fst (patch_status s u now i st))))"
  by (auto simp add: patch_status_def list_all2_conv_all_nth)

text \<open>
  Claim C6, as the code has it. Over any run of requests whose clock readings do not go
  backwards, from a store that satisfies it (the empty store does), every report with
  status Resolved has \<^verbatim>\<open>resolved_at\<close> set and every set \<^verbatim>\<open>resolved_at\<close> is at or after
  \<^verbatim>\<open>created_at\<close>. Resolved is not terminal: a status update to any other status is
  accepted for an existing report, Resolved or not, and writes the status alone, so the
  resolution timestamp stays.
\<close>

theorem lifecycle_kept:
  "(lifecycle_ok T s \<and> clock_ok T rs \<longrightarrow>
      lifecycle_ok (clock_end T rs) (run cfg s rs) \<and>
      list_all (\<lambda>p. status p = ''Resolved'' \<longrightarrow> resolved_at p \<noteq> None) (problems (run cfg s rs)) \<and>
      list_all (\<lambda>p. \<forall>r. resolved_at p = Some r \<longrightarrow> created_at p \<le> r) (problems (run cfg s rs))) \<and>
   lifecycle_ok T empty_db \<and>
   (authorize [''municipal_admin''] u \<and> p \<in> set (problems t) \<and> pid p = i \<and> st \<noteq> ''Resolved'' \<longrightarrow>
      snd (patch_status t u now i st) = Inr () \<and>
      p\<lparr>status := st\<rparr> \<in> set (problems (fst (patch_status t u now i st))))"
proof (intro conjI impI)
  assume a: "lifecycle_ok T s \<and> clock_ok T rs"
  then show ok: "lifecycle_ok (clock_end T rs) (run cfg s rs)"
    by (simp add: run_lifecycle)
  then show "list_all (\<lambda>p. status p = ''Resolved'' \<longrightarrow> resolved_at p \<noteq> None) (problems (run cfg s rs))"
    by (auto simp add: lifecycle_ok_def list_all_iff dest: stamped_facts)
  from ok show "list_all (\<lambda>p. \<forall>r. resolved_at p = Some r \<longrightarrow> created_at p \<le> r) (problems (run cfg s rs))"
    by (auto simp add: lifecycle_ok_def list_all_iff dest: stamped_facts)
next
  show "lifecycle_ok T empty_db"
    by (simp add: lifecycle_ok_def empty_db_def)
next
  assume "authorize [''municipal_admin''] u \<and> p \<in> set (problems t) \<and> pid p = i \<and> st \<noteq> ''Resolved''"
  then have *: "authorize [''municipal_admin''] u" "p \<in> set (problems t)" "pid p = i" "st \<noteq> ''Resolved''"
    by simp_all
  from patch_status_reopen[OF *, of now]
  show "snd (patch_status t u now i st) = Inr ()"
    and "p\<lparr>status := st\<rparr> \<in> set (problems (fst (patch_status t u now i st)))"
    by simp_all
qed

lemmas scenario_defs = leak1_def leak2_def resolve1_def reopen1_def thank1_def cfg1_def

lemma resolved_store:
  "run cfg0 empty_db [leak1, resolve1] =
     \<lparr>clusters = [leak_cluster],
      problems = [new_problem ''p1'' citizen 1000 (report ''Water Leakage'' (- 4 / 5) ''Water'')
                    (verdict ''Water Leakage'' (- 4 / 5) ''Water'') 1
                  \<lparr>status := ''Resolved'', resolved_at := Some 5000\<rparr>],
      comments = [], next_cluster_id = 2\<rparr>"
  by (simp add: scenario_defs leak_cluster_def eval_defs)

lemma reopened_store:
  "run cfg0 empty_db [leak1, resolve1, reopen1] =
     \<lparr>clusters = [leak_cluster],
      problems = [new_problem ''p1'' citizen 1000 (report ''Water Leakage'' (- 4 / 5) ''Water'')
                    (verdict ''Water Leakage'' (- 4 / 5) ''Water'') 1
                  \<lparr>status := ''Pending'', resolved_at := Some 5000\<rparr>],
      comments = [], next_cluster_id = 2\<rparr>"
  by (simp add: scenario_defs leak_cluster_def eval_defs)

theorem lifecycle_kept_witness:
  "clock_ok 0 [leak1, resolve1, reopen1] \<and>
   lifecycle_ok 6000 (run cfg0 empty_db [leak1, resolve1, reopen1]) \<and>
   authorize [''municipal_admin''] officer \<and>
   snd (patch_status (run cfg0 empty_db [leak1, resolve1]) officer 6000 ''p1'' ''Pending'') = Inr () \<and>
   map status (problems (fst (patch_status (run cfg0 empty_db [leak1, resolve1]) officer 6000 ''p1'' ''Pending'')))
     = [''Pending''] \<and>
   map resolved_at (problems (fst (patch_status (run cfg0 empty_db [leak1, resolve1]) officer 6000 ''p1'' ''Pending'')))
     = [Some 5000]"
proof -
  let ?p = "new_problem ''p1'' citizen 1000 (report ''Water Leakage'' (- 4 / 5) ''Water'')
              (verdict ''Water Leakage'' (- 4 / 5) ''Water'') 1
            \<lparr>status := ''Resolved'', resolved_at := Some 5000\<rparr>"
  let ?s = "run cfg0 empty_db [leak1, resolve1]"
  have c: "clock_ok 0 [leak1, resolve1, reopen1]"
    by (simp add: scenario_defs)
  have e: "clock_end 0 [leak1, resolve1, reopen1] = 6000"
    by (simp add: scenario_defs)
  have a: "authorize [''municipal_admin''] officer"
    by (simp add: authorize_def officer_def)
  have m: "?p \<in> set (problems ?s)" "pid ?p = ''p1''" "''Pending'' \<noteq> ''Resolved''"
    unfolding resolved_store by (simp_all add: new_problem_def)
  have l: "lifecycle_ok 6000 (run cfg0 empty_db [leak1, resolve1, reopen1])"
    using c e lifecycle_kept[of 0 empty_db "[leak1, resolve1, reopen1]" cfg0]
    by simp
  have r: "snd (patch_status ?s officer 6000 ''p1'' ''Pending'') = Inr () \<and>
      ?p\<lparr>status := ''Pending''\<rparr> \<in> set (problems (fst (patch_status ?s officer 6000 ''p1'' ''Pending'')))"
    using a m lifecycle_kept[where u = officer and p = ?p and t = ?s and i = "''p1''"
        and st = "''Pending''" and now = 6000]
    by blast
  have v: "fst (patch_status ?s officer 6000 ''p1'' ''Pending'') = run cfg0 empty_db [leak1, resolve1, reopen1]"
    by (simp add: reopen1_def)
  from c l a r show ?thesis
    unfolding v reopened_store by (simp add: new_problem_def)
qed

text \<open>
  Against claim C6 as stated: after a submission, a status update to Resolved and a
  status update back to Pending, the one report has status Pending and a resolution
  timestamp, so \<^verbatim>\<open>resolved_at\<close> is set without the status being Resolved, and the
  Resolved state was left.
\<close>

theorem resolved_not_terminal:
  "map status (problems (run cfg0 empty_db [leak1, resolve1])) = [''Resolved''] \<and>
   map status (problems (run cfg0 empty_db [leak1, resolve1, reopen1])) = [''Pending''] \<and>
   map resolved_at (problems (run cfg0 empty_db [leak1, resolve1, reopen1])) = [Some 5000] \<and>
   \<not> list_all resolved_iff (problems (run cfg0 empty_db [leak1, resolve1, reopen1]))"
  unfolding resolved_store reopened_store by (simp add: new_problem_def resolved_iff_def)

section \<open>Feedback\<close>

lemma post_comment_rejected:
  assumes "authorize [''citizen_admin''] u"
    and "find (\<lambda>p. pid p = i) (problems s) = None \<or>
         (\<exists>p. find (\<lambda>p. pid p = i) (problems s) = Some p \<and> resolved_at p = None)"
  shows "post_comment cfg s u now commentId i rt cm = (s, Inl (Http 400 ''Problem not resolved''))"
  using assms by (auto simp add: post_comment_def)

lemma post_comment_error_no_write:
  assumes "post_comment cfg s u now commentId i rt cm = (s', Inl e)"
  shows "s' = s"
  using assms by (auto simp add: post_comment_def Let_def split: option.splits if_splits)

lemma post_comment_accepted:
  assumes "authorize [''citizen_admin''] u"
    and "find (\<lambda>p. pid p = i) (problems s) = Some p" and "resolved_at p = Some r"
    and "\<not> (\<exists>c \<in> set (comments s). rc_id c = commentId)"
    and "comment_per_problem_unique cfg \<longrightarrow> \<not> (\<exists>c \<in> set (comments s). problem_id c = i)"
  shows "post_comment cfg s u now commentId i rt cm =
           (s\<lparr>comments := comments s @
                [new_comment commentId i u rt cm ((r - created_at p) div 1000) now]\<rparr>,
            Inr ((r - created_at p) div 1000))"
  using assms by (auto simp add: post_comment_def Let_def new_comment_def)

lemma post_comment_second:
  assumes "comment_per_problem_unique cfg" and "\<exists>c \<in> set (comments s). problem_id c = i"
  shows "\<exists>e. post_comment cfg s u now commentId i rt cm = (s, Inl e)"
  using assms by (auto simp add: post_comment_def Let_def split: option.splits)

lemma post_comment_comments:
  "comments (fst (post_comment cfg s u now commentId i rt cm)) = comments s \<or>
   (\<exists>tt. comments (fst (post_comment cfg s u now commentId i rt cm)) =
            comments s @ [new_comment commentId i u rt cm tt now] \<and>
          (comment_per_problem_unique cfg \<longrightarrow> i \<notin> set (map problem_id (comments s))))"
  by (auto simp add: post_comment_def Let_def new_comment_def split: option.splits)

lemma comments_post_problem [simp]:
  "comments (fst (post_problem cfg s u now new_id body)) = comments s"
  by (simp add: post_problem_unfold Let_def split: option.split)

lemma comments_patch_status [simp]:
  "comments (fst (patch_status s u now i st)) = comments s"
  by (simp add: patch_status_def)

lemma handle_one_feedback:
  assumes "comment_per_problem_unique cfg" and "distinct (map problem_id (comments s))"
  shows "distinct (map problem_id (comments (handle cfg s r)))"
proof (cases r)
  case (PostComment u now commentId i rt cm)
  with post_comment_comments[of cfg s u now commentId i rt cm] assms show ?thesis
    by (auto simp add: new_comment_def)
qed (use assms in simp_all)

lemma run_one_feedback:
  "comment_per_problem_unique cfg \<Longrightarrow> distinct (map problem_id (comments s)) \<Longrightarrow>
   distinct (map problem_id (comments (run cfg s rs)))"
  by (induction rs arbitrary: s) (simp_all add: handle_one_feedback)

text \<open>
  Claim C5, as the code has it. Feedback from a citizen is rejected with status 400 when
  the report does not exist or its \<^verbatim>\<open>resolved_at\<close> is unset: the handler reads the
  timestamp, not the status. Every rejected feedback leaves the store as it was. Feedback
  on a report whose \<^verbatim>\<open>resolved_at\<close> is set inserts one comment whose \<^verbatim>\<open>time_taken\<close> is
  \<^verbatim>\<open>resolved_at\<close> minus \<^verbatim>\<open>created_at\<close> in whole seconds, rounded down, and answers with
  it, provided the insert is not refused by the storage engine. The handler has no check
  for earlier feedback: a second feedback for a report is refused only by an engine that
  declares \<^verbatim>\<open>problem_id\<close> unique, and under such an engine no report ever has two.
\<close>

theorem feedback_guard:
  "(authorize [''citizen_admin''] u \<and>
    (find (\<lambda>p. pid p = i) (problems s) = None \<or>
     (\<exists>p. find (\<lambda>p. pid p = i) (problems s) = Some p \<and> resolved_at p = None)) \<longrightarrow>
      post_comment cfg s u now commentId i rt cm = (s, Inl (Http 400 ''Problem not resolved''))) \<and>
   (post_comment cfg s u now commentId i rt cm = (s', Inl e) \<longrightarrow> s' = s) \<and>
   (authorize [''citizen_admin''] v \<and>
    find (\<lambda>p. pid p = j) (problems t) = Some q \<and> resolved_at q = Some r \<and>
    \<not> (\<exists>c \<in> set (comments t). rc_id c = commentId') \<and>
    (comment_per_problem_unique cfg \<longrightarrow> \<not> (\<exists>c \<in> set (comments t). problem_id c = j)) \<longrightarrow>
      post_comment cfg t v now' commentId' j rt' cm' =
        (t\<lparr>comments := comments t @
             [new_comment commentId' j v rt' cm' ((r - created_at q) div 1000) now']\<rparr>,
         Inr ((r - created_at q) div 1000))) \<and>
   (comment_per_problem_unique cfg \<and> (\<exists>c \<in> set (comments w). problem_id c = k) \<longrightarrow>
      (\<exists>e'. post_comment cfg w u now commentId k rt cm = (w, Inl e'))) \<and>
   (comment_per_problem_unique cfg \<and> distinct (map problem_id (comments w)) \<longrightarrow>
      distinct (map problem_id (comments (run cfg w rs))))"
proof (intro conjI impI)
  assume "authorize [''citizen_admin''] u \<and>
    (find (\<lambda>p. pid p = i) (problems s) = None \<or>
     (\<exists>p. find (\<lambda>p. pid p = i) (problems s) = Some p \<and> resolved_at p = None))"
  then show "post_comment cfg s u now commentId i rt cm = (s, Inl (Http 400 ''Problem not resolved''))"
    by (intro post_comment_rejected) simp_all
next
  assume "post_comment cfg s u now commentId i rt cm = (s', Inl e)"
  then show "s' = s" by (rule post_comment_error_no_write)
next
  assume "authorize [''citizen_admin''] v \<and>
    find (\<lambda>p. pid p = j) (problems t) = Some q \<and> resolved_at q = Some r \<and>
    \<not> (\<exists>c \<in> set (comments t). rc_id c = commentId') \<and>
    (comment_per_problem_unique cfg \<longrightarrow> \<not> (\<exists>c \<in> set (comments t). problem_id c = j))"
  then show "post_comment cfg t v now' commentId' j rt' cm' =
        (t\<lparr>comments := comments t @
             [new_comment commentId' j v rt' cm' ((r - created_at q) div 1000) now']\<rparr>,
         Inr ((r - created_at q) div 1000))"
    by (intro post_comment_accepted) simp_all
next
  assume "comment_per_problem_unique cfg \<and> (\<exists>c \<in> set (comments w). problem_id c = k)"
  then show "\<exists>e'. post_comment cfg w u now commentId k rt cm = (w, Inl e')"
    by (intro post_comment_second) simp_all
next
  assume "comment_per_problem_unique cfg \<and> distinct (map problem_id (comments w))"
  then show "distinct (map problem_id (comments (run cfg w rs)))"
    by (simp add: run_one_feedback)
qed

lemma thanked_store:
  "run cfg1 empty_db [leak1, resolve1, thank1] =
     \<lparr>clusters = [leak_cluster],
      problems = [new_problem ''p1'' citizen 1000 (report ''Water Leakage'' (- 4 / 5) ''Water'')
                    (verdict ''Water Leakage'' (- 4 / 5) ''Water'') 1
                  \<lparr>status := ''Resolved'', resolved_at := Some 5000\<rparr>],
      comments = [new_comment ''c1'' ''p1'' citizen ''Good'' ''Thank you'' 4 7000],
      next_cluster_id = 2\<rparr>"
  by (simp add: scenario_defs leak_cluster_def new_comment_def eval_defs)

theorem feedback_guard_witness:
  "post_comment cfg1 (handle cfg1 empty_db leak1) citizen 7000 ''c1'' ''p1'' ''Good'' ''Thank you''
     = (handle cfg1 empty_db leak1, Inl (Http 400 ''Problem not resolved'')) \<and>
   post_comment cfg1 (run cfg1 empty_db [leak1, resolve1]) citizen 7000 ''c1'' ''p1'' ''Good'' ''Thank you''
     = (run cfg1 empty_db [leak1, resolve1, thank1], Inr 4) \<and>
   post_comment cfg1 (run cfg1 empty_db [leak1, resolve1, thank1]) citizen 8000 ''c2'' ''p1'' ''Bad'' ''Again''
     = (run cfg1 empty_db [leak1, resolve1, thank1], Inl (Http 500 ''Failed to save comment'')) \<and>
   distinct (map problem_id (comments (run cfg1 empty_db [leak1, resolve1, thank1, thank1])))"
proof -
  let ?fresh = "new_problem ''p1'' citizen 1000 (report ''Water Leakage'' (- 4 / 5) ''Water'')
              (verdict ''Water Leakage'' (- 4 / 5) ''Water'') 1"
  let ?res = "?fresh\<lparr>status := ''Resolved'', resolved_at := Some 5000\<rparr>"
  let ?s1 = "handle cfg1 empty_db leak1"
  let ?s2 = "run cfg1 empty_db [leak1, resolve1]"
  let ?s3 = "run cfg1 empty_db [leak1, resolve1, thank1]"
  have s1: "?s1 = \<lparr>clusters = [leak_cluster], problems = [?fresh], comments = [], next_cluster_id = 2\<rparr>"
    by (simp add: scenario_defs leak_cluster_def eval_defs)
  have s2: "?s2 = \<lparr>clusters = [leak_cluster], problems = [?res], comments = [], next_cluster_id = 2\<rparr>"
    by (simp add: scenario_defs leak_cluster_def eval_defs)
  have a: "authorize [''citizen_admin''] citizen"
    by (simp add: authorize_def citizen_def)
  have u: "comment_per_problem_unique cfg1"
    by (simp add: cfg1_def)
  have h1: "\<exists>p. find (\<lambda>p. pid p = ''p1'') (problems ?s1) = Some p \<and> resolved_at p = None"
    by (simp add: s1 new_problem_def)
  have h2: "find (\<lambda>p. pid p = ''p1'') (problems ?s2) = Some ?res" "resolved_at ?res = Some 5000"
    "\<not> (\<exists>c \<in> set (comments ?s2). rc_id c = ''c1'')"
    "comment_per_problem_unique cfg1 \<longrightarrow> \<not> (\<exists>c \<in> set (comments ?s2). problem_id c = ''p1'')"
    unfolding s2 by (simp_all add: new_problem_def)
  have h3: "\<exists>c \<in> set (comments ?s3). problem_id c = ''p1''"
    unfolding thanked_store by (simp add: new_comment_def)
  have h4: "distinct (map problem_id (comments empty_db))"
    by (simp add: empty_db_def)
  have r1: "post_comment cfg1 ?s1 citizen 7000 ''c1'' ''p1'' ''Good'' ''Thank you''
      = (?s1, Inl (Http 400 ''Problem not resolved''))"
    using a h1 feedback_guard[where cfg = cfg1 and u = citizen and i = "''p1''" and s = ?s1
        and now = 7000 and commentId = "''c1''" and rt = "''Good''" and cm = "''Thank you''",
        THEN conjunct1]
    by blast
  have "post_comment cfg1 ?s2 citizen 7000 ''c1'' ''p1'' ''Good'' ''Thank you'' =
      (?s2\<lparr>comments := comments ?s2 @
          [new_comment ''c1'' ''p1'' citizen ''Good'' ''Thank you'' ((5000 - created_at ?res) div 1000) 7000]\<rparr>,
       Inr ((5000 - created_at ?res) div 1000))"
    using a h2 feedback_guard[where cfg = cfg1 and v = citizen and j = "''p1''" and t = ?s2
        and q = ?res and r = 5000 and commentId' = "''c1''" and now' = 7000 and rt' = "''Good''"
        and cm' = "''Thank you''", THEN conjunct2, THEN conjunct2, THEN conjunct1]
    by blast
  then have r2: "post_comment cfg1 ?s2 citizen 7000 ''c1'' ''p1'' ''Good'' ''Thank you'' = (?s3, Inr 4)"
    unfolding s2 thanked_store by (simp add: new_problem_def)
  obtain e' where e': "post_comment cfg1 ?s3 citizen 8000 ''c2'' ''p1'' ''Bad'' ''Again'' = (?s3, Inl e')"
    using u h3 feedback_guard[where cfg = cfg1 and w = ?s3 and k = "''p1''" and u = citizen
        and now = 8000 and commentId = "''c2''" and rt = "''Bad''" and cm = "''Again''",
        THEN conjunct2, THEN conjunct2, THEN conjunct2, THEN conjunct1]
    by blast
  have "snd (post_comment cfg1 ?s3 citizen 8000 ''c2'' ''p1'' ''Bad'' ''Again'') = Inl (Http 500 ''Failed to save comment'')"
    unfolding thanked_store by (simp add: post_comment_def a u new_problem_def new_comment_def)
  with e' have r3: "post_comment cfg1 ?s3 citizen 8000 ''c2'' ''p1'' ''Bad'' ''Again''
      = (?s3, Inl (Http 500 ''Failed to save comment''))"
    by simp
  have r4: "distinct (map problem_id (comments (run cfg1 empty_db [leak1, resolve1, thank1, thank1])))"
    using u h4 feedback_guard[where cfg = cfg1 and w = empty_db
        and rs = "[leak1, resolve1, thank1, thank1]",
        THEN conjunct2, THEN conjunct2, THEN conjunct2, THEN conjunct2]
    by blast
  from r1 r2 r3 r4 show ?thesis by blast
qed

text \<open>
  Against claim C5 as stated: a report that was resolved and then set back to Pending is
  not Resolved, and feedback on it is accepted and written, under either engine.
\<close>

theorem feedback_on_unresolved:
  "map status (problems (run cfg0 empty_db [leak1, resolve1, reopen1])) = [''Pending''] \<and>
   snd (post_comment cfg0 (run cfg0 empty_db [leak1, resolve1, reopen1])
          citizen 7000 ''c1'' ''p1'' ''Good'' ''Thank you'') = Inr 4 \<and>
   map problem_id (comments (run cfg0 empty_db [leak1, resolve1, reopen1, thank1])) = [''p1''] \<and>
   map status (problems (run cfg1 empty_db [leak1, resolve1, reopen1])) = [''Pending''] \<and>
   snd (post_comment cfg1 (run cfg1 empty_db [leak1, resolve1, reopen1])
          citizen 7000 ''c1'' ''p1'' ''Good'' ''Thank you'') = Inr 4 \<and>
   map problem_id (comments (run cfg1 empty_db [leak1, resolve1, reopen1, thank1])) = [''p1'']"
  by (simp add: scenario_defs eval_defs)

section \<open>Trend buckets\<close>

lemma keys_map_entry: "map fst (AList.map_entry k f m) = map fst m"
  by (induction m) auto

lemma keys_trend_step: "map fst (trend_step p m) = map fst m"
  by (simp add: trend_step_def Let_def keys_map_entry split: option.split)

lemma keys_fold_trend_step: "map fst (fold trend_step ps m) = map fst m"
  by (induction ps arbitrary: m) (simp_all add: keys_trend_step)

lemma map_of_entry:
  "map_of (AList.map_entry k f m) j =
     (if j = k then map_option f (map_of m k) else map_of m j)"
  by (induction m) auto

lemma map_of_guarded_entry:
  "map_of (if map_of m k \<noteq> None \<and> c then AList.map_entry k f m else m) d =
     (if d = k \<and> c then map_option f (map_of m d) else map_of m d)"
  by (auto simp add: map_of_entry)

lemma map_of_trend_step:
  "map_of (trend_step p m) d = map_option (bump p d) (map_of m d)"
proof -
  define m1 where "m1 =
    (if map_of m (iso_date (created_at p)) \<noteq> None \<and> status p \<noteq> ''Resolved''
     then AList.map_entry (iso_date (created_at p)) (\<lambda>(a, r). (a + 1, r)) m else m)"
  have m1: "map_of m1 j =
      map_option (\<lambda>v. (fst v + (if counts_active j p then 1 else 0), snd v)) (map_of m j)" for j
    unfolding m1_def map_of_guarded_entry
    by (cases "map_of m j") (auto simp add: counts_active_def)
  show ?thesis
  proof (cases "resolved_at p")
    case None
    then have "trend_step p m = m1"
      by (simp add: trend_step_def Let_def m1_def)
    with None m1 show ?thesis
      by (cases "map_of m d") (simp_all add: bump_def counts_resolved_def)
  next
    case (Some t)
    then have "trend_step p m =
        (if map_of m1 (iso_date t) \<noteq> None \<and> True
         then AList.map_entry (iso_date t) (\<lambda>(a, r). (a, r + 1)) m1 else m1)"
      by (simp add: trend_step_def Let_def m1_def)
    then have "map_of (trend_step p m) d =
        (if d = iso_date t \<and> True then map_option (\<lambda>(a, r). (a, r + 1)) (map_of m1 d) else map_of m1 d)"
      by (simp only: map_of_guarded_entry)
    with Some show ?thesis
      by (cases "map_of m d") (auto simp add: m1 bump_def counts_resolved_def)
  qed
qed

lemma map_of_fold_trend_step:
  "map_of (fold trend_step ps m) d =
     map_option (\<lambda>v. (fst v + length (filter (counts_active d) ps),
                       snd v + length (filter (counts_resolved d) ps)))
       (map_of m d)"
proof (induction ps arbitrary: m)
  case Nil
  show ?case by (simp add: option.map_ident)
next
  case (Cons p ps)
  show ?case
    by (simp add: Cons.IH map_of_trend_step option.map_comp comp_def bump_def)
qed

text \<open>The buckets the loop creates: distinct keys, every count zero.\<close>

lemma fold_update_zero:
  assumes "distinct (map fst m)" and "\<forall>v \<in> snd ` set m. v = (0, 0)"
  shows "distinct (map fst (fold (\<lambda>i. AList.update (f i) (0, 0)) is m)) \<and>
         (\<forall>v \<in> snd ` set (fold (\<lambda>i. AList.update (f i) (0, 0)) is m). v = (0, 0)) \<and>
         fst ` set (fold (\<lambda>i. AList.update (f i) (0, 0)) is m) = fst ` set m \<union> f ` set is"
  using assms
proof (induction "is" arbitrary: m)
  case Nil
  then show ?case by simp
next
  case (Cons i "is")
  have d: "distinct (map fst (AList.update (f i) (0, 0) m))"
    using Cons.prems(1) by (rule distinct_update)
  have "set (AList.update (f i) (0, 0) m) \<subseteq> insert (f i, (0, 0)) (set m)"
    by (induction m) auto
  with Cons.prems(2) have z: "\<forall>v \<in> snd ` set (AList.update (f i) (0, 0) m). v = (0, 0)"
    by fastforce
  from Cons.IH[OF d z] show ?case
    by (auto simp add: dom_update)
qed

lemma init_trendMap_props:
  "distinct (map fst (init_trendMap z now)) \<and>
   (\<forall>v \<in> snd ` set (init_trendMap z now). v = (0, 0))"
proof -
  have "distinct (map fst ([] :: (int \<times> nat \<times> nat) list))"
    and "\<forall>v \<in> snd ` set ([] :: (int \<times> nat \<times> nat) list). v = (0, 0)"
    by simp_all
  from fold_update_zero[OF this, of "\<lambda>i. iso_date (setDate_back z now (int i))" "[0..<30]"]
  show ?thesis
    unfolding init_trendMap_def by blast
qed

lemma map_of_init: "(k, v) \<in> set (init_trendMap z now) \<Longrightarrow> map_of (init_trendMap z now) k = Some (0, 0)"
  using init_trendMap_props[of z now] by (force simp add: image_iff)

lemma trendMap_entry:
  assumes "(d, a, r) \<in> set (fold trend_step ps (init_trendMap z now))"
  shows "a = length (filter (counts_active d) ps) \<and> r = length (filter (counts_resolved d) ps)"
proof -
  let ?m = "fold trend_step ps (init_trendMap z now)"
  have "distinct (map fst ?m)"
    by (simp add: keys_fold_trend_step init_trendMap_props)
  with assms have m: "map_of ?m d = Some (a, r)"
    by simp
  have "d \<in> fst ` set ?m"
    using assms by force
  then have "d \<in> set (map fst ?m)" by simp
  then have "d \<in> fst ` set (init_trendMap z now)"
    by (simp add: keys_fold_trend_step)
  then obtain v where "(d, v) \<in> set (init_trendMap z now)" by auto
  then have "map_of (init_trendMap z now) d = Some (0, 0)"
    by (rule map_of_init)
  with m show ?thesis
    by (simp add: map_of_fold_trend_step)
qed

lemma build_trends_bucket:
  assumes "b \<in> set (build_trends z now ps)"
  shows "active b = length (filter (counts_active (date b)) ps) \<and>
         resolved b = length (filter (counts_resolved (date b)) ps)"
proof -
  from assms obtain d a r where
    "(d, a, r) \<in> set (fold trend_step ps (init_trendMap z now))"
    and b: "b = \<lparr>date = d, active = a, resolved = r\<rparr>"
    by (auto simp add: build_trends_def)
  from trendMap_entry[OF this(1)] b show ?thesis by simp
qed

lemma map_insort_key: "map f (insort_key f x xs) = insort (f x) (map f xs)"
  by (induction xs) simp_all

lemma map_sort_key: "map f (sort_key f xs) = sort (map f xs)"
  by (induction xs) (simp_all add: map_insort_key)

lemma build_trends_dates:
  "map date (build_trends z now ps) = sort (map fst (init_trendMap z now))"
proof -
  have "map date (map (\<lambda>(d, a, r). \<lparr>date = d, active = a, resolved = r\<rparr>) m) = map fst m"
    for m :: "(int \<times> nat \<times> nat) list"
    by (induction m) auto
  then show ?thesis
    unfolding build_trends_def map_sort_key by (simp only: keys_fold_trend_step)
qed

lemma setDate_back_fixed: "fixed_offset z k \<Longrightarrow> setDate_back z t n = t - n * msPerDay"
  by (simp add: fixed_offset_def setDate_back_def UTC_def LocalTime_def)

lemma iso_date_back: "iso_date (t - n * msPerDay) = iso_date t - n"
  by (simp add: iso_date_def msPerDay_def)

lemma fold_update_fresh:
  assumes "distinct (map f is)" and "f ` set is \<inter> fst ` set m = {}"
  shows "fold (\<lambda>i. AList.update (f i) v) is m = m @ map (\<lambda>i. (f i, v)) is"
  using assms
proof (induction "is" arbitrary: m)
  case Nil
  show ?case by simp
next
  case (Cons i "is")
  have notin: "f i \<notin> fst ` set m"
    using Cons.prems(2) by auto
  then have u: "AList.update (f i) v m = m @ [(f i, v)]"
    by (induction m) auto
  have "f ` set is \<inter> fst ` set (m @ [(f i, v)]) = {}"
    using Cons.prems by auto
  with Cons.IH[of "m @ [(f i, v)]"] Cons.prems(1) show ?case
    by (simp add: u)
qed

lemma init_trendMap_fixed:
  assumes "fixed_offset z k"
  shows "map fst (init_trendMap z now) = map (\<lambda>i. iso_date now - int i) [0..<30]"
proof -
  have f: "(\<lambda>i. iso_date (setDate_back z now (int i))) = (\<lambda>i. iso_date now - int i)"
    by (rule ext) (simp add: setDate_back_fixed[OF assms] iso_date_back)
  have "distinct (map (\<lambda>i. iso_date now - int i) [0..<30])"
    by (simp add: distinct_map inj_on_def)
  then have e: "fold (\<lambda>i. AList.update (iso_date now - int i) (0, 0)) [0..<30] [] =
      [] @ map (\<lambda>i. (iso_date now - int i, (0::nat, 0::nat))) [0..<30]"
    by (intro fold_update_fresh) simp_all
  show ?thesis
    by (simp add: init_trendMap_def setDate_back_fixed[OF assms] iso_date_back e comp_def)
qed

lemma sort_countdown: "sort (map (\<lambda>i. T - int i) [0..<n]) = [T - int n + 1 .. T]"
proof (rule sorted_distinct_set_unique)
  show "distinct (sort (map (\<lambda>i. T - int i) [0..<n]))"
    by (simp add: distinct_map inj_on_def)
  show "set (sort (map (\<lambda>i. T - int i) [0..<n])) = set [T - int n + 1 .. T]"
  proof -
    have "(\<lambda>i. T - int i) ` {0..<n} = {T - int n + 1 .. T}"
    proof (intro equalityI subsetI)
      fix x assume "x \<in> {T - int n + 1 .. T}"
      then have "x = T - int (nat (T - x))" and "nat (T - x) \<in> {0..<n}"
        by auto
      then show "x \<in> (\<lambda>i. T - int i) ` {0..<n}"
        by (rule image_eqI)
    qed auto
    then show ?thesis by simp
  qed
qed simp_all

lemma build_trends_fixed:
  assumes "fixed_offset z k"
  shows "map date (build_trends z now ps) = [iso_date now - 29 .. iso_date now]"
  using sort_countdown[of "iso_date now" 30]
  by (simp add: build_trends_dates init_trendMap_fixed[OF assms])

lemma getStats_trends:
  "trends (getStats z s u now) =
     build_trends z now (filter (in_trend_scope z u now) (problems s))"
  by (simp add: getStats_def Let_def recent_problems_def in_trend_scope_def[abs_def] split: prod.split)

lemma getStats_avgSentiment:
  "avgSentiment (getStats z s u now) = mean0 (map sentiment_score (problems s))"
  by (simp add: getStats_def Let_def or0_avg split: prod.split)

lemma getStats_counts_citizen:
  assumes "role u \<noteq> ''municipal_admin''"
  shows "totalProblems (getStats z s u now) = length (filter (\<lambda>p. user_id p = uid u) (problems s))"
    and "activeProblems (getStats z s u now) =
           length (filter (\<lambda>p. user_id p = uid u \<and> status p \<noteq> ''Resolved'') (problems s))"
    and "resolvedProblems (getStats z s u now) =
           length (filter (\<lambda>p. user_id p = uid u \<and> status p = ''Resolved'') (problems s))"
    and "urgentAlerts (getStats z s u now) =
           length (filter (\<lambda>p. user_id p = uid u \<and> is_urgent p \<and> status p \<noteq> ''Resolved'') (problems s))"
  using assms by (simp_all add: getStats_def Let_def)

lemma trends_bucket:
  assumes "b \<in> set (trends (getStats z s u now))"
  shows "active b = length (filter (\<lambda>p. in_trend_scope z u now p \<and> counts_active (date b) p) (problems s)) \<and>
         resolved b = length (filter (\<lambda>p. in_trend_scope z u now p \<and> counts_resolved (date b) p) (problems s))"
  using build_trends_bucket[OF assms[unfolded getStats_trends]]
  by (simp add: conj_commute)

lemma trends_ignore_old:
  assumes "created_at p < setDate_back z now 30"
  shows "trends (getStats z (s\<lparr>problems := problems s @ [p]\<rparr>) u now) = trends (getStats z s u now)"
  using assms by (simp add: getStats_trends in_trend_scope_def)

lemmas date_defs = init_trendMap_def setDate_back_def UTC_def LocalTime_def iso_date_def msPerDay_def

lemma upt_30: "[0..<30] = [0, 1, 2, 3, 4, 5, 6, 7, 8, 9, 10, 11, 12, 13, 14, 15, 16, 17, 18, 19,
    20, 21, 22, 23, 24, 25, 26, 27, 28, 29]"
  by code_simp

lemma old_store:
  "run cfg0 empty_db [old_leak, old_fixed] =
     \<lparr>clusters = [leak_cluster],
      problems = [new_problem ''p1'' citizen 5227200000 (report ''Water Leakage'' (- 4 / 5) ''Water'')
                    (verdict ''Water Leakage'' (- 4 / 5) ''Water'') 1
                  \<lparr>status := ''Resolved'', resolved_at := Some 8596800000\<rparr>],
      comments = [], next_cluster_id = 2\<rparr>"
  by (simp add: old_leak_def old_fixed_def noon_def leak_cluster_def eval_defs)

section \<open>The thirty-day window\<close>

text \<open>
  Where the window is what the spec says: in a zone of fixed offset the buckets are the
  thirty UTC days ending with the day of the request, in ascending order, for every
  store and caller.
\<close>

lemma trends_window_fixed_offset:
  assumes "fixed_offset z k"
  shows "map date (trends (getStats z s u now)) = [iso_date now - 29 .. iso_date now]"
    and "length (trends (getStats z s u now)) = 30"
proof -
  show w: "map date (trends (getStats z s u now)) = [iso_date now - 29 .. iso_date now]"
    unfolding getStats_trends using assms by (rule build_trends_fixed)
  have "length (map date (trends (getStats z s u now))) = 30"
    unfolding w by simp
  then show "length (trends (getStats z s u now)) = 30"
    by simp
qed

lemma trends_empty_day:
  assumes "b \<in> set (trends (getStats z s u now))"
    and "\<not> (\<exists>p \<in> set (problems s). in_trend_scope z u now p \<and>
              (counts_active (date b) p \<or> counts_resolved (date b) p))"
  shows "active b = 0 \<and> resolved b = 0"
  using trends_bucket[OF assms(1)] assms(2) by (auto simp add: filter_empty_conv)

text \<open>
  Claim C2 on a server in the zone Europe/Berlin, for a request at 23:30 UTC on
  9 April 2025 (01:30 local time on 10 April), with no report stored. The local dates
  31 March 01:30 (summer time) and 30 March 01:30 (winter time) both fall on the UTC day
  30 March, day 20177, so the loop writes that key twice and the series has 29 buckets,
  the days 20159 to 20187, not 30.
\<close>

theorem trends_across_clock_change:
  "length (trends (getStats berlin empty_db officer 1744241400000)) = 29 \<and>
   map date (trends (getStats berlin empty_db officer 1744241400000)) = [20159 .. 20187] \<and>
   iso_date (setDate_back berlin 1744241400000 10) = 20177 \<and>
   iso_date (setDate_back berlin 1744241400000 11) = 20177"
proof -
  have t: "trends (getStats berlin empty_db officer 1744241400000) =
      map (\<lambda>d. \<lparr>date = d, active = 0, resolved = 0\<rparr>) [20159 .. 20187]"
    unfolding getStats_trends
    by (simp add: in_trend_scope_def build_trends_def date_defs upt_30 berlin_def empty_db_def
        officer_def)
  have d: "iso_date (setDate_back berlin 1744241400000 10) = 20177"
      "iso_date (setDate_back berlin 1744241400000 11) = 20177"
    by (simp_all add: date_defs berlin_def)
  show ?thesis
    unfolding t using d by (simp add: comp_def)
qed

section \<open>Which reports a bucket counts\<close>

text \<open>
  Claim C3, as the code has it. The trend query fetches only the reports in scope that
  were created at or after \<^verbatim>\<open>thirtyDaysAgo\<close>. The resolved count of a bucket is the
  number of fetched reports whose \<^verbatim>\<open>resolved_at\<close> falls on the bucket's day, and the active
  count the number of fetched reports created on that day and not Resolved now. A report
  created before \<^verbatim>\<open>thirtyDaysAgo\<close> changes no bucket, whenever it was resolved.
\<close>

theorem trend_counts:
  "(\<forall>b \<in> set (trends (getStats z s u now)).
      resolved b =
        length (filter (\<lambda>p. in_trend_scope z u now p \<and> counts_resolved (date b) p) (problems s)) \<and>
      active b =
        length (filter (\<lambda>p. in_trend_scope z u now p \<and> counts_active (date b) p) (problems s))) \<and>
   (created_at p < setDate_back z now 30 \<longrightarrow>
      trends (getStats z (s\<lparr>problems := problems s @ [p]\<rparr>) u now) = trends (getStats z s u now))"
  using trends_bucket[of _ z s u now] trends_ignore_old[of p z now s u] by blast

lemma new_store:
  "run cfg0 empty_db [new_leak, old_fixed] =
     \<lparr>clusters = [leak_cluster],
      problems = [new_problem ''p1'' citizen 8510400000 (report ''Water Leakage'' (- 4 / 5) ''Water'')
                    (verdict ''Water Leakage'' (- 4 / 5) ''Water'') 1
                  \<lparr>status := ''Resolved'', resolved_at := Some 8596800000\<rparr>],
      comments = [], next_cluster_id = 2\<rparr>"
  by (simp add: new_leak_def old_fixed_def noon_def leak_cluster_def eval_defs)

lemma new_store_trends:
  "trends (getStats utc (run cfg0 empty_db [new_leak, old_fixed]) officer (noon 100)) =
     map (\<lambda>d. \<lparr>date = d, active = 0, resolved = 0\<rparr>) [71 .. 98] @
     [\<lparr>date = 99, active = 0, resolved = 1\<rparr>, \<lparr>date = 100, active = 0, resolved = 0\<rparr>]"
  unfolding new_store getStats_trends
  by (simp add: in_trend_scope_def build_trends_def date_defs upt_30 utc_def noon_def
      new_problem_def officer_def trend_step_def)

lemma old_store_trends:
  "trends (getStats utc (run cfg0 empty_db [old_leak, old_fixed]) officer (noon 100)) =
     map (\<lambda>d. \<lparr>date = d, active = 0, resolved = 0\<rparr>) [71 .. 100]"
  unfolding old_store getStats_trends
  by (simp add: in_trend_scope_def build_trends_def date_defs upt_30 utc_def noon_def
      new_problem_def officer_def trend_step_def)

theorem trend_counts_witness:
  "\<lparr>date = 99, active = 0, resolved = 1\<rparr>
     \<in> set (trends (getStats utc (run cfg0 empty_db [new_leak, old_fixed]) officer (noon 100))) \<and>
   length (filter (\<lambda>p. in_trend_scope utc officer (noon 100) p \<and> counts_resolved 99 p)
             (problems (run cfg0 empty_db [new_leak, old_fixed]))) = 1 \<and>
   noon 60 < setDate_back utc (noon 100) 30 \<and>
   trends (getStats utc (empty_db\<lparr>problems := problems empty_db @
        [new_problem ''p1'' citizen (noon 60) (report ''Water Leakage'' (- 4 / 5) ''Water'')
           (verdict ''Water Leakage'' (- 4 / 5) ''Water'') 1
         \<lparr>status := ''Resolved'', resolved_at := Some (noon 99)\<rparr>]\<rparr>) officer (noon 100))
     = trends (getStats utc empty_db officer (noon 100))"
proof -
  let ?b = "\<lparr>date = 99, active = 0, resolved = 1\<rparr>"
  let ?old = "new_problem ''p1'' citizen (noon 60) (report ''Water Leakage'' (- 4 / 5) ''Water'')
           (verdict ''Water Leakage'' (- 4 / 5) ''Water'') 1
         \<lparr>status := ''Resolved'', resolved_at := Some (noon 99)\<rparr>"
  have m: "?b \<in> set (trends (getStats utc (run cfg0 empty_db [new_leak, old_fixed]) officer (noon 100)))"
    unfolding new_store_trends by simp
  have c: "noon 60 < setDate_back utc (noon 100) 30"
    by (simp add: date_defs utc_def noon_def)
  have c': "created_at ?old < setDate_back utc (noon 100) 30"
    using c by (simp add: new_problem_def)
  have r: "resolved ?b =
      length (filter (\<lambda>p. in_trend_scope utc officer (noon 100) p \<and> counts_resolved (date ?b) p)
                (problems (run cfg0 empty_db [new_leak, old_fixed])))"
    using m trend_counts[of utc "run cfg0 empty_db [new_leak, old_fixed]" officer "noon 100", THEN conjunct1]
    by blast
  have o: "trends (getStats utc (empty_db\<lparr>problems := problems empty_db @ [?old]\<rparr>) officer (noon 100))
      = trends (getStats utc empty_db officer (noon 100))"
    using c' trend_counts[where z = utc and s = empty_db and u = officer and now = "noon 100"
        and p = ?old, THEN conjunct2]
    by blast
  from m r c o show ?thesis by simp
qed

text \<open>
  Against claim C3 as stated: a report created on day 60 and resolved on day 99 is in
  scope for the officer and its resolution date lies in the window of a request on day
  100, yet the bucket of day 99 has resolved count 0, as every other bucket has.
\<close>

theorem old_report_not_counted:
  "map created_at (problems (run cfg0 empty_db [old_leak, old_fixed])) = [noon 60] \<and>
   map resolved_at (problems (run cfg0 empty_db [old_leak, old_fixed])) = [Some (noon 99)] \<and>
   iso_date (noon 99) = 99 \<and> iso_date (noon 100) = 100 \<and>
   map date (trends (getStats utc (run cfg0 empty_db [old_leak, old_fixed]) officer (noon 100)))
     = [71 .. 100] \<and>
   filter (\<lambda>b. date b = 99)
     (trends (getStats utc (run cfg0 empty_db [old_leak, old_fixed]) officer (noon 100)))
     = [\<lparr>date = 99, active = 0, resolved = 0\<rparr>]"
proof -
  have a: "map created_at (problems (run cfg0 empty_db [old_leak, old_fixed])) = [noon 60]"
      "map resolved_at (problems (run cfg0 empty_db [old_leak, old_fixed])) = [Some (noon 99)]"
    unfolding old_store by (simp_all add: new_problem_def noon_def)
  have b: "iso_date (noon 99) = 99" "iso_date (noon 100) = 100"
    by (simp_all add: iso_date_def noon_def msPerDay_def)
  have c: "map date (trends (getStats utc (run cfg0 empty_db [old_leak, old_fixed]) officer (noon 100)))
     = [71 .. 100]"
    unfolding old_store_trends by (simp add: comp_def)
  have d: "filter (\<lambda>b. date b = 99)
     (trends (getStats utc (run cfg0 empty_db [old_leak, old_fixed]) officer (noon 100)))
     = [\<lparr>date = 99, active = 0, resolved = 0\<rparr>]"
    unfolding old_store_trends by simp
  from a b c d show ?thesis by blast
qed

section \<open>Scope of the dashboard counts\<close>

text \<open>
  Claim C10. For a caller who is not a municipal admin the four counts are taken over
  the caller's own reports. The mean sentiment is taken over all reports of all users:
  it is the same for every caller, zone and clock.
\<close>

theorem counts_scoped_sentiment_global:
  "(role u \<noteq> ''municipal_admin'' \<longrightarrow>
      totalProblems (getStats z s u now) = length (filter (\<lambda>p. user_id p = uid u) (problems s)) \<and>
      activeProblems (getStats z s u now) =
        length (filter (\<lambda>p. user_id p = uid u \<and> status p \<noteq> ''Resolved'') (problems s)) \<and>
      resolvedProblems (getStats z s u now) =
        length (filter (\<lambda>p. user_id p = uid u \<and> status p = ''Resolved'') (problems s)) \<and>
      urgentAlerts (getStats z s u now) =
        length (filter (\<lambda>p. user_id p = uid u \<and> is_urgent p \<and> status p \<noteq> ''Resolved'') (problems s))) \<and>
   avgSentiment (getStats z s u now) = mean0 (map sentiment_score (problems s)) \<and>
   avgSentiment (getStats z s u now) = avgSentiment (getStats z' s u' now')"
  using getStats_counts_citizen[of u z s now]
  by (simp add: getStats_avgSentiment)

theorem counts_scoped_sentiment_global_witness:
  "role citizen \<noteq> ''municipal_admin'' \<and>
   totalProblems (getStats utc (run cfg0 empty_db [leak1, neighbour2]) citizen (noon 100)) = 1 \<and>
   length (problems (run cfg0 empty_db [leak1, neighbour2])) = 2 \<and>
   avgSentiment (getStats utc (run cfg0 empty_db [leak1, neighbour2]) citizen (noon 100)) = - 3 / 5 \<and>
   avgSentiment (getStats utc (run cfg0 empty_db [leak1, neighbour2]) citizen (noon 100))
     = avgSentiment (getStats berlin (run cfg0 empty_db [leak1, neighbour2]) officer 0)"
proof -
  let ?s = "run cfg0 empty_db [leak1, neighbour2]"
  have s: "?s =
     \<lparr>clusters = [\<lparr>cl_id = 1, cluster_name = ''Water Leakage'', area = ''Kottapeta'',
                    problem_count = 2, avg_sentiment = - 3 / 5\<rparr>],
      problems = [new_problem ''p1'' citizen 1000 (report ''Water Leakage'' (- 4 / 5) ''Water'')
                    (verdict ''Water Leakage'' (- 4 / 5) ''Water'') 1,
                  new_problem ''p2'' neighbour 2000 (report ''Water'' (- 2 / 5) ''Water'')
                    (verdict ''Water'' (- 2 / 5) ''Water'') 1],
      comments = [], next_cluster_id = 2\<rparr>"
    by (simp add: leak1_def neighbour2_def neighbour_def eval_defs)
  have r: "role citizen \<noteq> ''municipal_admin''"
    by (simp add: citizen_def)
  have n: "length (filter (\<lambda>p. user_id p = uid citizen) (problems ?s)) = 1" "length (problems ?s) = 2"
    unfolding s by (simp_all add: new_problem_def citizen_def neighbour_def)
  have m: "mean0 (map sentiment_score (problems ?s)) = - 3 / 5"
    unfolding s by (simp add: new_problem_def verdict_def mean0_def)
  from r n m
    counts_scoped_sentiment_global[of citizen utc ?s "noon 100" berlin officer 0]
  show ?thesis by simp
qed

section \<open>Resolution times\<close>

lemma map_of_update_zero:
  "map_of (if map_of m k = None then AList.update k v m else m) j =
     (if j = k \<and> map_of m k = None then Some v else map_of m j)"
  by (simp add: update_conv')

lemma map_of_add_time:
  "map_of (add_time ck m) c =
     (if c = snd ck then Some (plus_tally (map_of m c) (time_taken (fst ck), 1)) else map_of m c)"
proof -
  define m1 where "m1 = (if map_of m (snd ck) = None then AList.update (snd ck) (0, 0) m else m)"
  have m1: "map_of m1 j = (if j = snd ck \<and> map_of m (snd ck) = None then Some (0, 0) else map_of m j)" for j
    unfolding m1_def by (rule map_of_update_zero)
  have "add_time ck m = AList.map_entry (snd ck) (\<lambda>(total, n). (total + time_taken (fst ck), n + 1)) m1"
    by (simp add: add_time_def Let_def m1_def)
  then show ?thesis
    by (cases "map_of m (snd ck)") (auto simp add: map_of_entry m1 plus_tally_def)
qed



lemma tally_Cons:
  "tally c (ck # xs) =
     (if snd ck = c then (time_taken (fst ck) + fst (tally c xs), Suc (snd (tally c xs))) else tally c xs)"
  by (simp add: tally_def)

lemma map_of_fold_add_time:
  "map_of (fold add_time xs m) c =
     (if filter (\<lambda>ck. snd ck = c) xs = [] then map_of m c
      else Some (plus_tally (map_of m c) (tally c xs)))"
proof (induction xs arbitrary: m)
  case Nil
  show ?case by simp
next
  case (Cons ck xs)
  show ?case
  proof (cases "snd ck = c")
    case False
    then show ?thesis
      by (simp add: Cons.IH map_of_add_time tally_Cons)
  next
    case True
    then show ?thesis
      by (cases "map_of m c")
         (auto simp add: Cons.IH map_of_add_time tally_Cons plus_tally_def tally_def)
  qed
qed



lemma resolutionTimesMap_keys:
  "set (map fst (resolutionTimesMap s)) = snd ` set (resolutionTimesRaw s)"
proof -
  have "(c \<in> fst ` set (resolutionTimesMap s)) = (c \<in> snd ` set (resolutionTimesRaw s))" for c
  proof -
    have "(c \<in> fst ` set (resolutionTimesMap s)) = (map_of (resolutionTimesMap s) c \<noteq> None)"
      by (simp add: map_of_eq_None_iff)
    also have "\<dots> = (filter (\<lambda>ck. snd ck = c) (resolutionTimesRaw s) \<noteq> [])"
      by (simp add: resolutionTimesMap_def map_of_fold_add_time)
    also have "\<dots> = (c \<in> snd ` set (resolutionTimesRaw s))"
      by (auto simp add: filter_empty_conv)
    finally show ?thesis .
  qed
  then show ?thesis by auto
qed























section \<open>The strategic report\<close>





end
